theory Spec2Isabelle
  imports Main "HOL-Library.Multiset"
begin

section \<open>Scheduler: data model\<close>

text \<open>
  The types of \<^verbatim>\<open>core/types/scheduler.ts\<close>. Timestamps and intervals are JavaScript
  numbers holding whole milliseconds; they are modelled as \<open>int\<close>. An optional field
  (\<^verbatim>\<open>atMs?: number\<close>) is an \<open>option\<close>, \<open>None\<close> standing for \<^verbatim>\<open>undefined\<close>.
\<close>

datatype ScheduleKind = At | Every | Cron

datatype PayloadKind = SystemEvent | AgentTurn | Heartbeat

datatype JobStatus = StatusOk | StatusError | StatusSkipped

record Schedule =
  kind :: ScheduleKind
  atMs :: "int option"
  everyMs :: "int option"
  expr :: "string option"
  tz :: "string option"

record JobPayload =
  payloadKind :: PayloadKind
  message :: string
  deliver :: bool
  channel :: "string option"
  sendTo :: "string option"

record JobState =
  nextRunAtMs :: "int option"
  lastRunAtMs :: "int option"
  lastStatus :: "JobStatus option"
  lastError :: "string option"

record ScheduledJob =
  jobId :: string
  name :: string
  enabled :: bool
  schedule :: Schedule
  payload :: JobPayload
  state :: JobState
  createdAtMs :: int
  updatedAtMs :: int
  deleteAfterRun :: bool

text \<open>
  The thrown values that have a rendering: an \<^verbatim>\<open>Error\<close> object (name and message), a
  string, \<^verbatim>\<open>undefined\<close> or \<^verbatim>\<open>null\<close>; and the rendering that \<^verbatim>\<open>String(error)\<close> and a
  template literal give them: an \<^verbatim>\<open>Error\<close> object prints as its name, its message or
  \<^verbatim>\<open>name: message\<close>; a thrown string prints as itself.
\<close>

datatype thrown =
  ThrownError string string
  | ThrownString string
  | ThrownUndefined
  | ThrownNull

fun String_of :: "thrown \<Rightarrow> string" where
  "String_of (ThrownError nm msg) =
     (if nm = [] then msg else if msg = [] then nm else nm @ '': '' @ msg)"
| "String_of (ThrownString s) = s"
| "String_of ThrownUndefined = ''undefined''"
| "String_of ThrownNull = ''null''"

text \<open>
  A job callback is code of the caller and may reject with any value: one that has a
  rendering, or an object that \<^verbatim>\<open>String()\<close> cannot convert (an object without
  \<^verbatim>\<open>toString\<close>, such as \<^verbatim>\<open>Object.create(null)\<close>, or one whose \<^verbatim>\<open>toString\<close> throws).
  For such an object the conversion itself throws; \<open>NoRendering e\<close> carries what it
  throws, a \<^verbatim>\<open>TypeError\<close> for the object without \<^verbatim>\<open>toString\<close>. \<open>String_js\<close> is
  \<^verbatim>\<open>String(error)\<close> on these values.
\<close>

datatype reason = Renders thrown | NoRendering thrown

definition conversionError :: thrown where
  "conversionError = ThrownError ''TypeError'' ''Cannot convert object to primitive value''"

fun String_js :: "reason \<Rightarrow> thrown + string" where
  "String_js (Renders e) = Inr (String_of e)"
| "String_js (NoRendering e) = Inl e"

text \<open>
  JavaScript truthiness of an optional number: \<^verbatim>\<open>undefined\<close> and \<^verbatim>\<open>0\<close> are falsy.
  An optional string is falsy when it is \<^verbatim>\<open>undefined\<close> or empty.
\<close>

definition truthyNum :: "int option \<Rightarrow> bool" where
  "truthyNum v = (case v of None \<Rightarrow> False | Some n \<Rightarrow> n \<noteq> 0)"

definition truthyStr :: "string option \<Rightarrow> bool" where
  "truthyStr v = (case v of None \<Rightarrow> False | Some s \<Rightarrow> s \<noteq> [])"

section \<open>Scheduler: next-run computation\<close>

text \<open>
  \<^verbatim>\<open>CronExpressionParser.parse(expr, {currentDate, tz}).next().getTime()\<close> belongs to
  the cron-parser library. It is a parameter of the model: given the expression, the
  time zone and the current time it either throws or returns the next occurrence.
\<close>

type_synonym cronParser = "string \<Rightarrow> string option \<Rightarrow> int \<Rightarrow> thrown + int"

definition computeNextRun :: "cronParser \<Rightarrow> Schedule \<Rightarrow> int \<Rightarrow> int option" where
  "computeNextRun parser sch currentMs =
     (if kind sch = At then
        (if truthyNum (atMs sch) \<and> the (atMs sch) > currentMs then atMs sch else None)
      else if kind sch = Every then
        (if \<not> truthyNum (everyMs sch) \<or> the (everyMs sch) \<le> 0 then None
         else Some (currentMs + the (everyMs sch)))
      else if kind sch = Cron \<and> truthyStr (expr sch) then
        (case parser (the (expr sch)) (tz sch) currentMs of
           Inl err \<Rightarrow> None
         | Inr t \<Rightarrow> Some t)
      else None)"

section \<open>Scheduler: the heartbeat file\<close>

text \<open>
  Strings are lists of code units; the model covers code units below 256. \<open>trim\<close>
  removes what \<^verbatim>\<open>String.prototype.trim\<close> removes in that range: tab, line feed,
  vertical tab, form feed, carriage return, space and no-break space.
\<close>

definition isWhiteSpace :: "char \<Rightarrow> bool" where
  "isWhiteSpace c \<longleftrightarrow> (of_char c :: nat) \<in> {9, 10, 11, 12, 13, 32, 160}"

definition trim :: "string \<Rightarrow> string" where
  "trim s = rev (dropWhile isWhiteSpace (rev (dropWhile isWhiteSpace s)))"

definition startsWith :: "string \<Rightarrow> string \<Rightarrow> bool" where
  "startsWith s prefix = (take (length prefix) s = prefix)"

text \<open>\<^verbatim>\<open>s.split(sep)\<close> for a separator of one code unit: the empty string gives one empty piece.\<close>

fun splitOn :: "char \<Rightarrow> string \<Rightarrow> string list" where
  "splitOn sep [] = [Nil]"
| "splitOn sep (c # cs) =
     (if c = sep then [] # splitOn sep cs
      else (case splitOn sep cs of
              piece # pieces \<Rightarrow> (c # piece) # pieces
            | [] \<Rightarrow> [c # Nil]))"

definition skipPatterns :: "string list" where
  "skipPatterns = [''- [ ]'', ''* [ ]'', ''- [x]'', ''* [x]'']"

definition skipLine :: "string \<Rightarrow> bool" where
  "skipLine line =
     (let trimmed = trim line
      in trimmed = [] \<or> startsWith trimmed ''#'' \<or> startsWith trimmed ''<!--''
         \<or> trimmed \<in> set skipPatterns)"

text \<open>The \<^verbatim>\<open>for\<close> loop of \<open>isHeartbeatEmpty\<close>: it returns false at the first line that is not skipped.\<close>

fun scanLines :: "string list \<Rightarrow> bool" where
  "scanLines [] = True"
| "scanLines (line # rest) = (if skipLine line then scanLines rest else False)"

definition isHeartbeatEmpty :: "string option \<Rightarrow> bool" where
  "isHeartbeatEmpty content =
     (case content of
        None \<Rightarrow> True
      | Some c \<Rightarrow> if c = [] then True else scanLines (splitOn (CHR 0x0A) c))"

text \<open>
  The lines that the code passes over, said without the loop: a line is passed over
  when it holds white space only, or when its visible text (the line trimmed) begins
  with \<open>#\<close>, begins with \<^verbatim>\<open><!--\<close>, or is exactly one of the four listed markers.
\<close>

definition blankLine :: "string \<Rightarrow> bool" where
  "blankLine line \<longleftrightarrow> (\<forall>c \<in> set line. isWhiteSpace c)"

definition hashLine :: "string \<Rightarrow> bool" where
  "hashLine line \<longleftrightarrow> (case trim line of [] \<Rightarrow> False | c # cs \<Rightarrow> c = CHR ''#'')"

definition commentOpenLine :: "string \<Rightarrow> bool" where
  "commentOpenLine line \<longleftrightarrow> take 4 (trim line) = ''<!--''"

definition listedMarkerLine :: "string \<Rightarrow> bool" where
  "listedMarkerLine line \<longleftrightarrow>
     trim line = ''- [ ]'' \<or> trim line = ''* [ ]'' \<or> trim line = ''- [x]'' \<or> trim line = ''* [x]''"

definition passedOverLine :: "string \<Rightarrow> bool" where
  "passedOverLine line \<longleftrightarrow>
     blankLine line \<or> hashLine line \<or> commentOpenLine line \<or> listedMarkerLine line"

text \<open>
  The line kinds in the words of the specification, read as Markdown reads them
  (CommonMark headings and HTML comments, the task list items of GitHub's Markdown). A
  heading is one to six \<open>#\<close> followed by a space, a tab or the end of the line. An HTML
  comment is a line whose visible text opens with \<^verbatim>\<open><!--\<close> and whose first \<^verbatim>\<open>-->\<close> ends
  it, so that no other text is on the line. A bare checkbox marker is a list bullet
  (\<open>-\<close>, \<open>*\<close> or \<open>+\<close>), a space, and \<open>[ ]\<close>, \<open>[x]\<close> or \<open>[X]\<close>, with no other text.
\<close>

definition markdownHeading :: "string \<Rightarrow> bool" where
  "markdownHeading line \<longleftrightarrow>
     (let visible = trim line;
          hashes = takeWhile (\<lambda>c. c = CHR ''#'') visible;
          rest = dropWhile (\<lambda>c. c = CHR ''#'') visible
      in 1 \<le> length hashes \<and> length hashes \<le> 6
         \<and> (case rest of [] \<Rightarrow> True | c # cs \<Rightarrow> c = CHR '' '' \<or> c = CHR 0x09))"

fun closesAtEnd :: "string \<Rightarrow> bool" where
  "closesAtEnd [] = False"
| "closesAtEnd (c # cs) =
     (if take 3 (c # cs) = ''-->'' then drop 3 (c # cs) = [] else closesAtEnd cs)"

definition htmlComment :: "string \<Rightarrow> bool" where
  "htmlComment line \<longleftrightarrow>
     take 4 (trim line) = ''<!--'' \<and> closesAtEnd (drop 4 (trim line))"

definition checkboxMarkers :: "string list" where
  "checkboxMarkers =
     [''- [ ]'', ''- [x]'', ''- [X]'', ''* [ ]'', ''* [x]'', ''* [X]'',
      ''+ [ ]'', ''+ [x]'', ''+ [X]'']"

definition bareCheckbox :: "string \<Rightarrow> bool" where
  "bareCheckbox line \<longleftrightarrow> trim line \<in> set checkboxMarkers"

definition nothingToDoLine :: "string \<Rightarrow> bool" where
  "nothingToDoLine line \<longleftrightarrow>
     blankLine line \<or> markdownHeading line \<or> htmlComment line \<or> bareCheckbox line"

section \<open>Scheduler: the persisted document\<close>

text \<open>
  The JSON document at \<open>storePath\<close>, after \<^verbatim>\<open>JSON.parse\<close>: every field that
  \<open>loadStore\<close> reads with a default may be missing (\<open>None\<close>). \<^verbatim>\<open>JSON.stringify\<close> drops
  a field whose value is \<^verbatim>\<open>undefined\<close>, so an optional field of a job that is \<open>None\<close> is a
  missing field of the document. The encoding to text and back belongs to the runtime
  and is not modelled.
\<close>

record PersistedPayload =
  pKind :: "PayloadKind option"
  pMessage :: "string option"
  pDeliver :: "bool option"
  pChannel :: "string option"
  pTo :: "string option"

record PersistedJob =
  fId :: string
  fName :: string
  fEnabled :: "bool option"
  fSchedule :: "Schedule option"
  fPayload :: "PersistedPayload option"
  fState :: "JobState option"
  fCreatedAtMs :: "int option"
  fUpdatedAtMs :: "int option"
  fDeleteAfterRun :: "bool option"

record PersistedDoc =
  fVersion :: "int option"
  fJobs :: "PersistedJob list option"

datatype StoreFile = NoFile | Corrupt | Doc PersistedDoc

datatype FileRead = Missing | Unreadable | Contents string

section \<open>Scheduler: state\<close>

text \<open>
  Jobs are objects shared between \<open>store.jobs\<close> and the \<open>dueJobs\<close> array of a tick, and
  \<open>executeJob\<close> mutates them in place. The model keeps them in a heap indexed by
  reference; \<open>jobs\<close> of the store is the list of references.

  The fields after \<open>heartbeatJobId\<close> are the environment: the cron library, the clock
  (\<open>nowMs\<close> returns the next reading of \<open>clock\<close>), the store file, \<^verbatim>\<open>HEARTBEAT.md\<close>,
  and the log of the jobs passed to the callback. The callback \<open>onJob\<close> maps the job it
  receives to \<open>None\<close> when its promise fulfils and to \<open>Some e\<close> when it rejects with \<open>e\<close>;
  it does not call back into the scheduler. Writing the store file is taken to succeed.

  \<open>timerTimeout\<close> is the delay of the pending timer, \<open>None\<close> when no timer is pending.
  (The field of the source keeps the handle of a timer that has fired; the only use of
  such a handle is \<^verbatim>\<open>clearTimeout\<close>, which does nothing with it.)

  \<open>executeJob\<close> and \<open>onTimer\<close> are \<^verbatim>\<open>async\<close>: their promise is fulfilled, or rejected with
  what was thrown; either way the scheduler is left in the state reached so far.
\<close>

record JobStore =
  version :: int
  jobs :: "nat list"

record Scheduler =
  store :: "JobStore option"
  heap :: "nat \<Rightarrow> ScheduledJob"
  nextRef :: nat
  onJob :: "(ScheduledJob \<Rightarrow> reason option) option"
  timerTimeout :: "int option"
  running :: bool
  heartbeatJobId :: "string option"
  cronNext :: cronParser
  clock :: "nat \<Rightarrow> int"
  ticks :: nat
  storeFile :: StoreFile
  heartbeatFile :: FileRead
  calls :: "ScheduledJob list"

datatype promised = Fulfilled Scheduler | Rejected thrown Scheduler

fun stateAfter :: "promised \<Rightarrow> Scheduler" where
  "stateAfter (Fulfilled s) = s"
| "stateAfter (Rejected e s) = s"

fun rejection :: "promised \<Rightarrow> thrown option" where
  "rejection (Fulfilled s) = None"
| "rejection (Rejected e s) = Some e"

definition nowMs :: "Scheduler \<Rightarrow> int \<times> Scheduler" where
  "nowMs s = (clock s (ticks s), s\<lparr>ticks := ticks s + 1\<rparr>)"

definition createStore :: JobStore where
  "createStore = \<lparr>version = 1, jobs = []\<rparr>"

definition modifyJob :: "nat \<Rightarrow> (ScheduledJob \<Rightarrow> ScheduledJob) \<Rightarrow> Scheduler \<Rightarrow> Scheduler" where
  "modifyJob r f s = s\<lparr>heap := (heap s)(r := f (heap s r))\<rparr>"

definition modifyState :: "nat \<Rightarrow> (JobState \<Rightarrow> JobState) \<Rightarrow> Scheduler \<Rightarrow> Scheduler" where
  "modifyState r f s = modifyJob r (\<lambda>j. j\<lparr>state := f (state j)\<rparr>) s"

section \<open>Scheduler: loading and saving the store\<close>

definition orNum :: "int option \<Rightarrow> int \<Rightarrow> int" where
  "orNum v d = (if truthyNum v then the v else d)"

definition orStr :: "string option \<Rightarrow> string \<Rightarrow> string" where
  "orStr v d = (if truthyStr v then the v else d)"

definition orBool :: "bool option \<Rightarrow> bool \<Rightarrow> bool" where
  "orBool v d = (if v = Some True then True else d)"

text \<open>
  The callback of \<^verbatim>\<open>(data.jobs || []).map(...)\<close>. Reading \<^verbatim>\<open>j.schedule.kind\<close> of a job
  without a schedule throws; the result is \<open>None\<close> then, and \<open>loadStore\<close> falls back to
  an empty store.
\<close>

definition loadJob :: "PersistedJob \<Rightarrow> ScheduledJob option" where
  "loadJob j =
     (case fSchedule j of
        None \<Rightarrow> None
      | Some sch \<Rightarrow> Some
          \<lparr>jobId = fId j,
           name = fName j,
           enabled = (case fEnabled j of None \<Rightarrow> True | Some b \<Rightarrow> b),
           schedule = \<lparr>kind = kind sch, atMs = atMs sch, everyMs = everyMs sch,
                       expr = expr sch, tz = tz sch\<rparr>,
           payload =
             \<lparr>payloadKind = (case Option.bind (fPayload j) pKind of None \<Rightarrow> AgentTurn | Some k \<Rightarrow> k),
              message = orStr (Option.bind (fPayload j) pMessage) [],
              deliver = orBool (Option.bind (fPayload j) pDeliver) False,
              channel = Option.bind (fPayload j) pChannel,
              sendTo = Option.bind (fPayload j) pTo\<rparr>,
           state =
             \<lparr>nextRunAtMs = Option.bind (fState j) nextRunAtMs,
              lastRunAtMs = Option.bind (fState j) lastRunAtMs,
              lastStatus = Option.bind (fState j) lastStatus,
              lastError = Option.bind (fState j) lastError\<rparr>,
           createdAtMs = orNum (fCreatedAtMs j) 0,
           updatedAtMs = orNum (fUpdatedAtMs j) 0,
           deleteAfterRun = orBool (fDeleteAfterRun j) False\<rparr>)"

text \<open>Each loaded job is a fresh object: it gets the next free reference.\<close>

fun allocJobs :: "ScheduledJob list \<Rightarrow> Scheduler \<Rightarrow> nat list \<times> Scheduler" where
  "allocJobs [] s = ([], s)"
| "allocJobs (j # js) s =
     (let r = nextRef s;
          (rs, s') = allocJobs js (s\<lparr>heap := (heap s)(r := j), nextRef := r + 1\<rparr>)
      in (r # rs, s'))"

definition loadStore :: "Scheduler \<Rightarrow> JobStore \<times> Scheduler" where
  "loadStore s =
     (case store s of
        Some st \<Rightarrow> (st, s)
      | None \<Rightarrow>
          (case storeFile s of
             Doc fileData \<Rightarrow>
               (case those (map loadJob (case fJobs fileData of None \<Rightarrow> [] | Some js \<Rightarrow> js)) of
                  Some loaded \<Rightarrow>
                    (let (rs, s') = allocJobs loaded s;
                         st = \<lparr>version = orNum (fVersion fileData) 1, jobs = rs\<rparr>
                     in (st, s'\<lparr>store := Some st\<rparr>))
                | None \<Rightarrow> (createStore, s\<lparr>store := Some createStore\<rparr>))
           | Corrupt \<Rightarrow> (createStore, s\<lparr>store := Some createStore\<rparr>)
           | NoFile \<Rightarrow> (createStore, s\<lparr>store := Some createStore\<rparr>)))"

definition saveJob :: "ScheduledJob \<Rightarrow> PersistedJob" where
  "saveJob j =
     \<lparr>fId = jobId j,
      fName = name j,
      fEnabled = Some (enabled j),
      fSchedule = Some \<lparr>kind = kind (schedule j), atMs = atMs (schedule j),
                        everyMs = everyMs (schedule j), expr = expr (schedule j),
                        tz = tz (schedule j)\<rparr>,
      fPayload = Some \<lparr>pKind = Some (payloadKind (payload j)),
                       pMessage = Some (message (payload j)),
                       pDeliver = Some (deliver (payload j)),
                       pChannel = channel (payload j),
                       pTo = sendTo (payload j)\<rparr>,
      fState = Some \<lparr>nextRunAtMs = nextRunAtMs (state j),
                     lastRunAtMs = lastRunAtMs (state j),
                     lastStatus = lastStatus (state j),
                     lastError = lastError (state j)\<rparr>,
      fCreatedAtMs = Some (createdAtMs j),
      fUpdatedAtMs = Some (updatedAtMs j),
      fDeleteAfterRun = Some (deleteAfterRun j)\<rparr>"

text \<open>\<^verbatim>\<open>j.id !== this.heartbeatJobId\<close>: while \<open>heartbeatJobId\<close> is \<^verbatim>\<open>null\<close> every job passes.\<close>

definition notHeartbeat :: "Scheduler \<Rightarrow> nat \<Rightarrow> bool" where
  "notHeartbeat s r \<longleftrightarrow> Some (jobId (heap s r)) \<noteq> heartbeatJobId s"

definition saveStore :: "Scheduler \<Rightarrow> Scheduler" where
  "saveStore s =
     (case store s of
        None \<Rightarrow> s
      | Some st \<Rightarrow>
          (let persistJobs = filter (notHeartbeat s) (jobs st)
           in s\<lparr>storeFile := Doc \<lparr>fVersion = Some (version st),
                                   fJobs = Some (map (\<lambda>r. saveJob (heap s r)) persistJobs)\<rparr>\<rparr>))"

section \<open>Scheduler: timer and job execution\<close>

definition getNextWakeMs :: "Scheduler \<Rightarrow> int option" where
  "getNextWakeMs s =
     (case store s of
        None \<Rightarrow> None
      | Some st \<Rightarrow>
          (let times = map (\<lambda>r. the (nextRunAtMs (state (heap s r))))
                 (filter (\<lambda>r. enabled (heap s r) \<and> truthyNum (nextRunAtMs (state (heap s r))))
                    (jobs st))
           in if length times > 0 then Some (min_list times) else None))"

text \<open>\<open>timerTimeout\<close> holds the delay of the one pending timer, \<open>None\<close> when none is armed.\<close>

definition armTimer :: "Scheduler \<Rightarrow> Scheduler" where
  "armTimer s =
     (let s1 = s\<lparr>timerTimeout := None\<rparr>;
          nextWake = getNextWakeMs s1
      in if \<not> truthyNum nextWake \<or> \<not> running s1 then s1
         else (let (t, s2) = nowMs s1
               in s2\<lparr>timerTimeout := Some (max 0 (the nextWake - t))\<rparr>))"

definition checkHeartbeatFile :: "Scheduler \<Rightarrow> bool" where
  "checkHeartbeatFile s =
     (case heartbeatFile s of
        Missing \<Rightarrow> False
      | Unreadable \<Rightarrow> False
      | Contents content \<Rightarrow> \<not> isHeartbeatEmpty (Some content))"

text \<open>The heartbeat gate of \<open>executeJob\<close>: the job is a heartbeat and the file has nothing to do.\<close>

definition heartbeatSkips :: "Scheduler \<Rightarrow> nat \<Rightarrow> bool" where
  "heartbeatSkips s r \<longleftrightarrow>
     payloadKind (payload (heap s r)) = Heartbeat \<and> \<not> checkHeartbeatFile s"

text \<open>The branch of \<open>executeJob\<close> that returns early with status \<open>skipped\<close>.\<close>

definition skipJob :: "nat \<Rightarrow> int \<Rightarrow> Scheduler \<Rightarrow> Scheduler" where
  "skipJob r startMs s =
     (let s1 = modifyState r (\<lambda>st. st\<lparr>lastStatus := Some StatusSkipped\<rparr>) s;
          s2 = modifyState r (\<lambda>st. st\<lparr>lastRunAtMs := Some startMs\<rparr>) s1;
          (t1, s3) = nowMs s2;
          s4 = modifyJob r (\<lambda>j. j\<lparr>updatedAtMs := t1\<rparr>) s3;
          (t2, s5) = nowMs s4
      in modifyState r
           (\<lambda>st. st\<lparr>nextRunAtMs := computeNextRun (cronNext s5) (schedule (heap s5 r)) t2\<rparr>) s5)"

text \<open>
  The \<^verbatim>\<open>try\<close>/\<^verbatim>\<open>catch\<close> around the callback. The \<^verbatim>\<open>catch\<close> block first sets
  \<open>lastStatus\<close>, then stores \<^verbatim>\<open>String(error)\<close>; when that conversion throws, the
  exception leaves the block and \<open>executeJob\<close> with it.
\<close>

definition invokeCallback :: "nat \<Rightarrow> Scheduler \<Rightarrow> promised" where
  "invokeCallback r s =
     (case onJob s of
        None \<Rightarrow>
          Fulfilled (modifyState r (\<lambda>st. st\<lparr>lastStatus := Some StatusOk, lastError := None\<rparr>) s)
      | Some callback \<Rightarrow>
          (let s1 = s\<lparr>calls := calls s @ [heap s r]\<rparr>
           in case callback (heap s r) of
                None \<Rightarrow>
                  Fulfilled
                    (modifyState r (\<lambda>st. st\<lparr>lastStatus := Some StatusOk, lastError := None\<rparr>) s1)
              | Some err \<Rightarrow>
                  (let s2 = modifyState r (\<lambda>st. st\<lparr>lastStatus := Some StatusError\<rparr>) s1
                   in case String_js err of
                        Inl e \<Rightarrow> Rejected e s2
                      | Inr text \<Rightarrow>
                          Fulfilled (modifyState r (\<lambda>st. st\<lparr>lastError := Some text\<rparr>) s2))))"

text \<open>The code after the \<^verbatim>\<open>try\<close>/\<^verbatim>\<open>catch\<close>: bookkeeping and the handling of one-shot jobs.\<close>

definition finishJob :: "nat \<Rightarrow> int \<Rightarrow> Scheduler \<Rightarrow> Scheduler" where
  "finishJob r startMs s =
     (let s1 = modifyState r (\<lambda>st. st\<lparr>lastRunAtMs := Some startMs\<rparr>) s;
          (t1, s2) = nowMs s1;
          s3 = modifyJob r (\<lambda>j. j\<lparr>updatedAtMs := t1\<rparr>) s2
      in if kind (schedule (heap s3 r)) = At then
           (if deleteAfterRun (heap s3 r) \<and> store s3 \<noteq> None then
              s3\<lparr>store := Some ((the (store s3))
                   \<lparr>jobs := filter (\<lambda>r'. jobId (heap s3 r') \<noteq> jobId (heap s3 r))
                              (jobs (the (store s3)))\<rparr>)\<rparr>
            else
              modifyState r (\<lambda>st. st\<lparr>nextRunAtMs := None\<rparr>)
                (modifyJob r (\<lambda>j. j\<lparr>enabled := False\<rparr>) s3))
         else
           (let (t2, s4) = nowMs s3
            in modifyState r
                 (\<lambda>st. st\<lparr>nextRunAtMs := computeNextRun (cronNext s4) (schedule (heap s4 r)) t2\<rparr>)
                 s4))"

definition executeJob :: "nat \<Rightarrow> Scheduler \<Rightarrow> promised" where
  "executeJob r s =
     (let (startMs, s1) = nowMs s
      in if heartbeatSkips s1 r then Fulfilled (skipJob r startMs s1)
         else (case invokeCallback r s1 of
                 Rejected e s2 \<Rightarrow> Rejected e s2
               | Fulfilled s2 \<Rightarrow> Fulfilled (finishJob r startMs s2)))"

definition dueJob :: "int \<Rightarrow> ScheduledJob \<Rightarrow> bool" where
  "dueJob now j \<longleftrightarrow>
     enabled j \<and> truthyNum (nextRunAtMs (state j)) \<and> now \<ge> the (nextRunAtMs (state j))"

text \<open>The loop \<^verbatim>\<open>for (const job of dueJobs) await this.executeJob(job)\<close>.\<close>

fun executeAll :: "nat list \<Rightarrow> Scheduler \<Rightarrow> promised" where
  "executeAll [] s = Fulfilled s"
| "executeAll (r # rs) s =
     (case executeJob r s of
        Rejected e s' \<Rightarrow> Rejected e s'
      | Fulfilled s' \<Rightarrow> executeAll rs s')"

definition onTimer :: "Scheduler \<Rightarrow> promised" where
  "onTimer s =
     (case store s of
        None \<Rightarrow> Fulfilled s
      | Some st \<Rightarrow>
          (let (now, s1) = nowMs s;
               dueJobs = filter (\<lambda>r. dueJob now (heap s1 r)) (jobs st)
           in case executeAll dueJobs s1 of
                Rejected e s2 \<Rightarrow> Rejected e s2
              | Fulfilled s2 \<Rightarrow> Fulfilled (armTimer (saveStore s2))))"

text \<open>
  The callback that \<open>armTimer\<close> hands to \<^verbatim>\<open>setTimeout\<close>. Once it runs, the timer that
  fired is no longer pending.
\<close>

definition timerFired :: "Scheduler \<Rightarrow> promised" where
  "timerFired s =
     (let s0 = s\<lparr>timerTimeout := None\<rparr>
      in if running s0 then onTimer s0 else Fulfilled s0)"

section \<open>Scheduler: listing jobs\<close>

text \<open>
  The comparator \<^verbatim>\<open>(a.state.nextRunAtMs || Infinity) - (b.state.nextRunAtMs || Infinity)\<close>
  on JavaScript numbers: \<open>Infinity - Infinity\<close> is \<open>NaN\<close>, which \<^verbatim>\<open>Array.prototype.sort\<close>
  reads as \<open>0\<close>.
\<close>

datatype jsnum = Fin int | PosInf | NegInf | NaN

fun jsSub :: "jsnum \<Rightarrow> jsnum \<Rightarrow> jsnum" where
  "jsSub (Fin a) (Fin b) = Fin (a - b)"
| "jsSub (Fin a) PosInf = NegInf"
| "jsSub (Fin a) NegInf = PosInf"
| "jsSub PosInf (Fin b) = PosInf"
| "jsSub PosInf NegInf = PosInf"
| "jsSub PosInf PosInf = NaN"
| "jsSub NegInf (Fin b) = NegInf"
| "jsSub NegInf PosInf = NegInf"
| "jsSub NegInf NegInf = NaN"
| "jsSub NaN y = NaN"
| "jsSub x NaN = NaN"

fun isPositive :: "jsnum \<Rightarrow> bool" where
  "isPositive (Fin n) = (n > 0)"
| "isPositive PosInf = True"
| "isPositive NegInf = False"
| "isPositive NaN = False"

definition orInfinity :: "int option \<Rightarrow> jsnum" where
  "orInfinity v = (if truthyNum v then Fin (the v) else PosInf)"

definition compareJobs :: "ScheduledJob \<Rightarrow> ScheduledJob \<Rightarrow> jsnum" where
  "compareJobs a b =
     jsSub (orInfinity (nextRunAtMs (state a))) (orInfinity (nextRunAtMs (state b)))"

text \<open>
  \<^verbatim>\<open>Array.prototype.sort\<close> is stable: an element moves behind a later one only when the
  comparator is positive. \<open>sortWith\<close> is the stable insertion sort with that rule.
\<close>

fun insertWith :: "('a \<Rightarrow> 'a \<Rightarrow> jsnum) \<Rightarrow> 'a \<Rightarrow> 'a list \<Rightarrow> 'a list" where
  "insertWith cmp x [] = [x]"
| "insertWith cmp x (y # ys) =
     (if isPositive (cmp x y) then y # insertWith cmp x ys else x # y # ys)"

definition sortWith :: "('a \<Rightarrow> 'a \<Rightarrow> jsnum) \<Rightarrow> 'a list \<Rightarrow> 'a list" where
  "sortWith cmp xs = foldr (insertWith cmp) xs []"

text \<open>\<open>listJobs\<close> returns the references of the listed jobs, in order.\<close>

definition listJobs :: "Scheduler \<Rightarrow> nat list \<times> Scheduler" where
  "listJobs s =
     (let (st, s1) = loadStore s
      in (sortWith (\<lambda>a b. compareJobs (heap s1 a) (heap s1 b))
            (filter (notHeartbeat s1) (jobs st)), s1))"

text \<open>What the callback does with the job at reference \<open>r\<close>: \<open>None\<close> when there is no callback.\<close>

definition outcomeOf :: "Scheduler \<Rightarrow> nat \<Rightarrow> reason option" where
  "outcomeOf s r = (case onJob s of None \<Rightarrow> None | Some callback \<Rightarrow> callback (heap s r))"

section \<open>Scheduler: sample states\<close>

text \<open>Concrete jobs and schedulers on which the theorems below are run.\<close>

definition noCron :: cronParser where
  "noCron e z t = Inl (ThrownError ''Error'' ''Invalid cron expression'')"

definition dailyOnly :: cronParser where
  "dailyOnly e z t =
     (if e = ''0 9 * * *'' then Inr (t + 60000)
      else Inl (ThrownError ''Error'' ''Invalid cron expression''))"

definition atLater :: Schedule where
  "atLater = \<lparr>kind = At, atMs = Some 1500, everyMs = None, expr = None, tz = None\<rparr>"

definition cronBroken :: Schedule where
  "cronBroken =
     \<lparr>kind = Cron, atMs = None, everyMs = None, expr = Some ''not a cron'', tz = None\<rparr>"

definition sampleClock :: "nat \<Rightarrow> int" where
  "sampleClock n = 2000 + int n"

definition sampleJob :: ScheduledJob where
  "sampleJob =
     \<lparr>jobId = ''a1b2c3d4'', name = ''reminder'', enabled = True,
      schedule = \<lparr>kind = At, atMs = Some 1000, everyMs = None, expr = None, tz = None\<rparr>,
      payload = \<lparr>payloadKind = AgentTurn, message = ''ping'', deliver = False,
                 channel = None, sendTo = None\<rparr>,
      state = \<lparr>nextRunAtMs = Some 1000, lastRunAtMs = None, lastStatus = None,
               lastError = None\<rparr>,
      createdAtMs = 500, updatedAtMs = 500, deleteAfterRun = False\<rparr>"

definition sampleEvery :: ScheduledJob where
  "sampleEvery =
     \<lparr>jobId = ''e5f6a7b8'', name = ''poll'', enabled = True,
      schedule = \<lparr>kind = Every, atMs = None, everyMs = Some 60000, expr = None, tz = None\<rparr>,
      payload = \<lparr>payloadKind = AgentTurn, message = ''poll'', deliver = False,
                 channel = None, sendTo = None\<rparr>,
      state = \<lparr>nextRunAtMs = Some 1500, lastRunAtMs = None, lastStatus = None,
               lastError = None\<rparr>,
      createdAtMs = 500, updatedAtMs = 500, deleteAfterRun = False\<rparr>"

definition heartbeatJob :: ScheduledJob where
  "heartbeatJob =
     \<lparr>jobId = ''heartbeat-0f1e2d3c'', name = ''Heartbeat'', enabled = True,
      schedule = \<lparr>kind = Every, atMs = None, everyMs = Some 1800000, expr = None, tz = None\<rparr>,
      payload = \<lparr>payloadKind = Heartbeat, message = ''Read HEARTBEAT.md'', deliver = False,
                 channel = None, sendTo = None\<rparr>,
      state = \<lparr>nextRunAtMs = Some 1800, lastRunAtMs = None, lastStatus = None,
               lastError = None\<rparr>,
      createdAtMs = 0, updatedAtMs = 0, deleteAfterRun = False\<rparr>"

text \<open>A one-shot job that carries the heartbeat payload and asks to be deleted after its run.\<close>

definition oneShotHeartbeat :: ScheduledJob where
  "oneShotHeartbeat =
     \<lparr>jobId = ''c9d8e7f6'', name = ''check once'', enabled = True,
      schedule = \<lparr>kind = At, atMs = Some 1000, everyMs = None, expr = None, tz = None\<rparr>,
      payload = \<lparr>payloadKind = Heartbeat, message = ''Read HEARTBEAT.md'', deliver = False,
                 channel = None, sendTo = None\<rparr>,
      state = \<lparr>nextRunAtMs = Some 1000, lastRunAtMs = None, lastStatus = None,
               lastError = None\<rparr>,
      createdAtMs = 500, updatedAtMs = 500, deleteAfterRun = True\<rparr>"

definition throwsForReminder :: "ScheduledJob \<Rightarrow> reason option" where
  "throwsForReminder j =
     (if name j = ''reminder'' then Some (Renders (ThrownError ''Error'' ''boom'')) else None)"

text \<open>A callback that rejects, for the reminder, with \<^verbatim>\<open>Object.create(null)\<close>.\<close>

definition throwsBareObject :: "ScheduledJob \<Rightarrow> reason option" where
  "throwsBareObject j =
     (if name j = ''reminder'' then Some (NoRendering conversionError) else None)"

definition sampleScheduler :: Scheduler where
  "sampleScheduler =
     \<lparr>store = Some \<lparr>version = 1, jobs = [0, 1]\<rparr>,
      heap = (\<lambda>r. sampleJob)(1 := sampleEvery),
      nextRef = 2,
      onJob = Some throwsForReminder,
      timerTimeout = Some 0,
      running = True,
      heartbeatJobId = None,
      cronNext = noCron,
      clock = sampleClock,
      ticks = 0,
      storeFile = NoFile,
      heartbeatFile = Missing,
      calls = []\<rparr>"

definition deletingScheduler :: Scheduler where
  "deletingScheduler = sampleScheduler\<lparr>heap := (\<lambda>r. sampleJob\<lparr>deleteAfterRun := True\<rparr>)\<rparr>"

definition bareObjectScheduler :: Scheduler where
  "bareObjectScheduler = sampleScheduler\<lparr>onJob := Some throwsBareObject\<rparr>"

definition heartbeatScheduler :: "FileRead \<Rightarrow> Scheduler" where
  "heartbeatScheduler contents =
     sampleScheduler
       \<lparr>store := Some \<lparr>version = 1, jobs = [0]\<rparr>,
        heap := (\<lambda>r. heartbeatJob),
        nextRef := 1,
        heartbeatJobId := Some ''heartbeat-0f1e2d3c'',
        heartbeatFile := contents\<rparr>"

definition oneShotHeartbeatScheduler :: Scheduler where
  "oneShotHeartbeatScheduler =
     sampleScheduler
       \<lparr>store := Some \<lparr>version = 1, jobs = [0]\<rparr>,
        heap := (\<lambda>r. oneShotHeartbeat),
        nextRef := 1\<rparr>"

text \<open>
  The same one-shot job, kept after its run, as the heartbeat job of a started
  scheduler (\<open>addHeartbeatJob\<close> adopts a stored job with the heartbeat payload), with
  work waiting in \<^verbatim>\<open>HEARTBEAT.md\<close>.
\<close>

definition adoptedHeartbeatScheduler :: Scheduler where
  "adoptedHeartbeatScheduler =
     sampleScheduler
       \<lparr>store := Some \<lparr>version = 1, jobs = [0]\<rparr>,
        heap := (\<lambda>r. oneShotHeartbeat\<lparr>deleteAfterRun := False\<rparr>),
        nextRef := 1,
        heartbeatJobId := Some ''c9d8e7f6'',
        heartbeatFile := Contents ''Check the oven''\<rparr>"

section \<open>Message bus: the asynchronous queue\<close>

text \<open>
  \<open>AsyncQueue\<close> of \<^verbatim>\<open>message-bus.ts\<close>, run by a single-threaded event loop: each call of
  \<open>push\<close>, \<open>pop\<close> and \<open>popWithTimeout\<close> and each timer callback runs to completion, so a
  run of the queue is a sequence of such events. Every call of \<open>pop\<close> or
  \<open>popWithTimeout\<close> returns a promise, numbered in call order. A registered resolver is
  \<open>Plain p\<close> (the \<^verbatim>\<open>resolve\<close> of promise \<open>p\<close>, registered by \<open>pop\<close>) or \<open>Wrapped p\<close>
  (\<^verbatim>\<open>wrappedResolve\<close>, registered by \<open>popWithTimeout\<close>). \<open>timers\<close> holds the pending
  \<^verbatim>\<open>setTimeout\<close> handles with their delays; \<open>resolved\<close> logs every settling of a promise
  in order, an immediate \<^verbatim>\<open>return item\<close> included, and a promise keeps the first value
  it is settled with. \<open>pushedItems\<close> logs the pushed items. Items are messages, never
  \<^verbatim>\<open>undefined\<close>, so \<^verbatim>\<open>item !== undefined\<close> holds exactly when the buffer was not empty.
\<close>

datatype 'a outcome = Item 'a | Null

datatype resolver = Plain nat | Wrapped nat

fun promiseOf :: "resolver \<Rightarrow> nat" where
  "promiseOf (Plain p) = p"
| "promiseOf (Wrapped p) = p"

record 'a AsyncQueue =
  queue :: "'a list"
  resolvers :: "resolver list"
  timers :: "(nat \<times> int) list"
  resolved :: "(nat \<times> 'a outcome) list"
  nextPromise :: nat
  pushedItems :: "'a list"

definition emptyQueue :: "'a AsyncQueue" where
  "emptyQueue = \<lparr>queue = [], resolvers = [], timers = [], resolved = [],
     nextPromise = 0, pushedItems = []\<rparr>"

definition resolve :: "nat \<Rightarrow> 'a outcome \<Rightarrow> 'a AsyncQueue \<Rightarrow> 'a AsyncQueue" where
  "resolve p v s = s\<lparr>resolved := resolved s @ [(p, v)]\<rparr>"

definition clearTimeout :: "nat \<Rightarrow> 'a AsyncQueue \<Rightarrow> 'a AsyncQueue" where
  "clearTimeout p s = s\<lparr>timers := filter (\<lambda>t. fst t \<noteq> p) (timers s)\<rparr>"

fun callResolver :: "resolver \<Rightarrow> 'a \<Rightarrow> 'a AsyncQueue \<Rightarrow> 'a AsyncQueue" where
  "callResolver (Plain p) v s = resolve p (Item v) s"
| "callResolver (Wrapped p) v s = resolve p (Item v) (clearTimeout p s)"

definition push :: "'a \<Rightarrow> 'a AsyncQueue \<Rightarrow> 'a AsyncQueue" where
  "push item s =
     (let s0 = s\<lparr>pushedItems := pushedItems s @ [item]\<rparr>
      in case resolvers s0 of
           r # rs \<Rightarrow> callResolver r item (s0\<lparr>resolvers := rs\<rparr>)
         | [] \<Rightarrow> s0\<lparr>queue := queue s0 @ [item]\<rparr>)"

definition pop :: "'a AsyncQueue \<Rightarrow> 'a AsyncQueue" where
  "pop s =
     (let p = nextPromise s; s0 = s\<lparr>nextPromise := p + 1\<rparr>
      in case queue s0 of
           item # rest \<Rightarrow> resolve p (Item item) (s0\<lparr>queue := rest\<rparr>)
         | [] \<Rightarrow> s0\<lparr>resolvers := resolvers s0 @ [Plain p]\<rparr>)"

definition popWithTimeout :: "int \<Rightarrow> 'a AsyncQueue \<Rightarrow> 'a AsyncQueue" where
  "popWithTimeout timeoutMs s =
     (let p = nextPromise s; s0 = s\<lparr>nextPromise := p + 1\<rparr>
      in case queue s0 of
           item # rest \<Rightarrow> resolve p (Item item) (s0\<lparr>queue := rest\<rparr>)
         | [] \<Rightarrow> s0\<lparr>timers := timers s0 @ [(p, timeoutMs)],
                     resolvers := resolvers s0 @ [Wrapped p]\<rparr>)"

text \<open>
  The \<^verbatim>\<open>setTimeout\<close> callback of promise \<open>p\<close>. The runtime runs it only while its timer
  is pending, and once; \<^verbatim>\<open>indexOf\<close> with \<^verbatim>\<open>splice\<close> removes the first occurrence of
  \<^verbatim>\<open>wrappedResolve\<close>.
\<close>

definition timerFires :: "nat \<Rightarrow> 'a AsyncQueue \<Rightarrow> 'a AsyncQueue" where
  "timerFires p s =
     (if p \<in> fst ` set (timers s) then
        resolve p Null
          ((clearTimeout p s)\<lparr>resolvers := remove1 (Wrapped p) (resolvers s)\<rparr>)
      else s)"

datatype 'a event = Push 'a | Pop | PopWithTimeout int | TimerFires nat

fun step :: "'a event \<Rightarrow> 'a AsyncQueue \<Rightarrow> 'a AsyncQueue" where
  "step (Push item) s = push item s"
| "step Pop s = pop s"
| "step (PopWithTimeout ms) s = popWithTimeout ms s"
| "step (TimerFires p) s = timerFires p s"

definition run :: "'a event list \<Rightarrow> 'a AsyncQueue \<Rightarrow> 'a AsyncQueue" where
  "run es s = fold step es s"

text \<open>
  What a run shows of a promise: the value it holds (the first it was settled with,
  \<open>None\<close> while pending) and how often it was settled; \<open>itemsOf\<close> lists the items
  delivered to callers, in order of delivery.
\<close>

definition promiseValue :: "'a AsyncQueue \<Rightarrow> nat \<Rightarrow> 'a outcome option" where
  "promiseValue s p = map_of (resolved s) p"

definition settleCount :: "'a AsyncQueue \<Rightarrow> nat \<Rightarrow> nat" where
  "settleCount s p = length (filter (\<lambda>e. fst e = p) (resolved s))"

fun itemsOf :: "(nat \<times> 'a outcome) list \<Rightarrow> 'a list" where
  "itemsOf [] = []"
| "itemsOf ((p, Item x) # es) = x # itemsOf es"
| "itemsOf ((p, Null) # es) = itemsOf es"

text \<open>
  The invariant of the queue, and the state of a \<open>popWithTimeout\<close> call that has seen no
  push: still waiting with its timer pending, or timed out.
\<close>

definition isPush :: "'a event \<Rightarrow> bool" where
  "isPush e = (case e of Push x \<Rightarrow> True | _ \<Rightarrow> False)"

definition queueInv :: "'a AsyncQueue \<Rightarrow> bool" where
  "queueInv s \<longleftrightarrow>
     (queue s = [] \<or> resolvers s = [])
   \<and> distinct (map fst (resolved s))
   \<and> sorted_wrt (<) (map promiseOf (resolvers s))
   \<and> (\<forall>r \<in> set (resolvers s). promiseOf r < nextPromise s \<and> promiseOf r \<notin> fst ` set (resolved s))
   \<and> (\<forall>p \<in> fst ` set (resolved s). p < nextPromise s)
   \<and> (\<forall>p. p \<in> fst ` set (timers s) \<longleftrightarrow> Wrapped p \<in> set (resolvers s))
   \<and> itemsOf (resolved s) @ queue s = pushedItems s"

definition awaitingTimeout :: "nat \<Rightarrow> 'a AsyncQueue \<Rightarrow> bool" where
  "awaitingTimeout p s \<longleftrightarrow>
     (p \<in> fst ` set (timers s) \<and> p \<notin> fst ` set (resolved s))
   \<or> (p \<notin> fst ` set (timers s) \<and> promiseValue s p = Some Null)"

section \<open>Orders on next-run times\<close>

text \<open>
  Ascending order on optional times with \<^verbatim>\<open>undefined\<close> last, as the specification words
  the order of \<open>listJobs\<close>; \<open>effectiveNext\<close> is the time the comparator of \<open>listJobs\<close>
  sees, where \<open>0\<close> counts as \<^verbatim>\<open>undefined\<close>.
\<close>

definition ascendingLast :: "int option \<Rightarrow> int option \<Rightarrow> bool" where
  "ascendingLast a b =
     (case b of None \<Rightarrow> True | Some y \<Rightarrow> (case a of None \<Rightarrow> False | Some x \<Rightarrow> x \<le> y))"

definition effectiveNext :: "ScheduledJob \<Rightarrow> int option" where
  "effectiveNext j =
     (if truthyNum (nextRunAtMs (state j)) then nextRunAtMs (state j) else None)"

definition statedNext :: "ScheduledJob \<Rightarrow> int option" where
  "statedNext j = nextRunAtMs (state j)"

definition sortedByNext :: "(ScheduledJob \<Rightarrow> int option) \<Rightarrow> Scheduler \<Rightarrow> nat list \<Rightarrow> bool" where
  "sortedByNext key s rs =
     sorted_wrt (\<lambda>a b. ascendingLast (key (heap s a)) (key (heap s b))) rs"

definition zeroNextJob :: ScheduledJob where
  "zeroNextJob = sampleJob\<lparr>enabled := False, state := (state sampleJob)\<lparr>nextRunAtMs := Some 0\<rparr>\<rparr>"

definition zeroNextScheduler :: Scheduler where
  "zeroNextScheduler = sampleScheduler\<lparr>heap := (\<lambda>r. zeroNextJob)(1 := sampleEvery)\<rparr>"

text \<open>A scheduler that holds the heartbeat job besides two user jobs, and its restart.\<close>

definition persistScheduler :: Scheduler where
  "persistScheduler =
     sampleScheduler
       \<lparr>store := Some \<lparr>version = 1, jobs = [0, 1, 2]\<rparr>,
        heap := (\<lambda>r. sampleJob)(1 := sampleEvery, 2 := heartbeatJob),
        nextRef := 3,
        heartbeatJobId := Some ''heartbeat-0f1e2d3c''\<rparr>"

definition restarted :: "Scheduler \<Rightarrow> Scheduler" where
  "restarted s = s\<lparr>store := None, heartbeatJobId := None, timerTimeout := None, running := False\<rparr>"

section \<open>Subagent manager\<close>

text \<open>
  \<open>runSubagent\<close> and \<open>announceResult\<close> of \<^verbatim>\<open>application/subagent.ts\<close>, with
  \<open>ToolRegistry.execute\<close> of \<^verbatim>\<open>tools/registry.ts\<close>. The language model
  (\<^verbatim>\<open>provider.chat\<close>) is a parameter: given the message list it throws or returns a
  response. A tool maps its arguments to a result or throws; the registry passed to
  \<open>runSubagent\<close> stands for the six tools the source registers. \<open>chatLog\<close> records every
  answer of the model during the run, \<open>failure\<close> what the \<^verbatim>\<open>catch\<close> of \<open>runSubagent\<close>
  receives. The announcement is pushed on the inbound queue of the bus; \<open>now\<close> is the
  time \<open>createInboundMessage\<close> stamps on it.
\<close>

record ToolCallRequest =
  toolCallId :: string
  toolName :: string
  arguments :: string

record LLMResponse =
  content :: "string option"
  toolCalls :: "ToolCallRequest list"
  finishReason :: string

datatype ContentPart =
  TextPart string
  | ToolCallPart string string string
  | ToolResultPart string string string

datatype CoreMessage =
  SystemMessage string
  | UserMessage string
  | AssistantMessage "ContentPart list"
  | ToolMessage "ContentPart list"

type_synonym provider = "CoreMessage list \<Rightarrow> thrown + LLMResponse"

type_synonym ToolRegistry = "string \<rightharpoonup> (string \<Rightarrow> thrown + string)"

definition execute :: "ToolRegistry \<Rightarrow> string \<Rightarrow> string \<Rightarrow> string" where
  "execute tools nm params =
     (case tools nm of
        None \<Rightarrow> ''Error: Tool '' @ [CHR 0x27] @ nm @ [CHR 0x27] @ '' not found''
      | Some tool \<Rightarrow>
          (case tool params of
             Inr result \<Rightarrow> result
           | Inl err \<Rightarrow> ''Error executing '' @ nm @ '': '' @ String_of err))"

text \<open>
  Modelled from the spec: \<^verbatim>\<open>AIProvider.hasToolCalls\<close> (the provider module is not among
  the sources): "if the response contains tool calls".
\<close>

definition hasToolCalls :: "LLMResponse \<Rightarrow> bool" where
  "hasToolCalls response \<longleftrightarrow> toolCalls response \<noteq> []"

definition maxIterations :: nat where
  "maxIterations = 15"

record LoopState =
  iteration :: nat
  messages :: "CoreMessage list"
  finalResult :: "string option"
  failure :: "thrown option"
  chatLog :: "(thrown + LLMResponse) list"

definition assistantMessage :: "LLMResponse \<Rightarrow> CoreMessage" where
  "assistantMessage response =
     AssistantMessage
       ((case content response of
           None \<Rightarrow> []
         | Some text \<Rightarrow> if text = [] then [] else [TextPart text])
        @ map (\<lambda>tc. ToolCallPart (toolCallId tc) (toolName tc) (arguments tc)) (toolCalls response))"

definition toolMessage :: "ToolRegistry \<Rightarrow> ToolCallRequest \<Rightarrow> CoreMessage" where
  "toolMessage tools toolCall =
     ToolMessage [ToolResultPart (toolCallId toolCall) (toolName toolCall)
                    (execute tools (toolName toolCall) (arguments toolCall))]"

text \<open>
  The \<^verbatim>\<open>while (iteration < maxIterations)\<close> loop. A throw of the model leaves the loop
  with \<open>failure\<close> set; an answer without tool calls sets \<open>finalResult\<close> and breaks.
\<close>

function agentLoop :: "provider \<Rightarrow> ToolRegistry \<Rightarrow> LoopState \<Rightarrow> LoopState" where
  "agentLoop chat tools st =
     (if iteration st < maxIterations then
        (let st1 = st\<lparr>iteration := iteration st + 1\<rparr>;
             answer = chat (messages st1);
             st2 = st1\<lparr>chatLog := chatLog st1 @ [answer]\<rparr>
         in case answer of
              Inl err \<Rightarrow> st2\<lparr>failure := Some err\<rparr>
            | Inr response \<Rightarrow>
                if hasToolCalls response then
                  agentLoop chat tools
                    (st2\<lparr>messages := messages st2 @ [assistantMessage response]
                                      @ map (toolMessage tools) (toolCalls response)\<rparr>)
                else st2\<lparr>finalResult := content response\<rparr>)
      else st)"
  by pat_completeness auto
termination
  by (relation "measure (\<lambda>(chat, tools, st). maxIterations - iteration st)") auto

record InboundMessage =
  msgChannel :: string
  senderId :: string
  chatId :: string
  msgContent :: string
  timestamp :: int
  media :: "string list"
  metadata :: "(string \<times> string) list"

record Origin =
  originChannel :: string
  originChatId :: string

datatype AnnounceStatus = AnnounceOk | AnnounceError

definition createInboundMessage :: "int \<Rightarrow> string \<Rightarrow> string \<Rightarrow> string \<Rightarrow> string \<Rightarrow> InboundMessage" where
  "createInboundMessage now ch sender chat text =
     \<lparr>msgChannel = ch, senderId = sender, chatId = chat, msgContent = text,
      timestamp = now, media = [], metadata = []\<rparr>"

definition placeholderResult :: string where
  "placeholderResult = ''Task completed but no final response was generated.''"

definition announceContent :: "string \<Rightarrow> string \<Rightarrow> string \<Rightarrow> AnnounceStatus \<Rightarrow> string" where
  "announceContent label task result status =
     (let statusText = (if status = AnnounceOk then ''completed successfully'' else ''failed'')
      in ''[Subagent '' @ [CHR 0x27] @ label @ [CHR 0x27] @ '' '' @ statusText @ '']''
         @ ''\<newline>\<newline>Task: '' @ task
         @ ''\<newline>\<newline>Result:\<newline>'' @ result
         @ ''\<newline>\<newline>Summarize this naturally for the user. Keep it brief (1-2 sentences). ''
         @ ''Do not mention technical details like '' @ [CHR 0x22] @ ''subagent'' @ [CHR 0x22]
         @ '' or task IDs.'')"

definition announceResult ::
  "int \<Rightarrow> string \<Rightarrow> string \<Rightarrow> string \<Rightarrow> string \<Rightarrow> Origin \<Rightarrow> AnnounceStatus
    \<Rightarrow> InboundMessage AsyncQueue \<Rightarrow> InboundMessage AsyncQueue" where
  "announceResult now taskId label task result origin status inbound =
     push (createInboundMessage now ''system'' ''subagent''
             (originChannel origin @ '':'' @ originChatId origin)
             (announceContent label task result status))
       inbound"

definition buildSubagentPrompt :: "string \<Rightarrow> string \<Rightarrow> string" where
  "buildSubagentPrompt workspace task =
     ''# Subagent\<newline>\<newline>''
     @ ''You are a subagent spawned by the main agent to complete a specific task.\<newline>\<newline>''
     @ ''## Your Task\<newline>'' @ task @ ''\<newline>\<newline>''
     @ ''## Rules\<newline>''
     @ ''1. Stay focused - complete only the assigned task, nothing else\<newline>''
     @ ''2. Your final response will be reported back to the main agent\<newline>''
     @ ''3. Do not initiate conversations or take on side tasks\<newline>''
     @ ''4. Be concise but informative in your findings\<newline>\<newline>''
     @ ''## What You Can Do\<newline>''
     @ ''- Read and write files in the workspace\<newline>''
     @ ''- Execute shell commands\<newline>''
     @ ''- Search the web and fetch web pages\<newline>''
     @ ''- Complete the task thoroughly\<newline>\<newline>''
     @ ''## What You Cannot Do\<newline>''
     @ ''- Send messages directly to users (no message tool available)\<newline>''
     @ ''- Spawn other subagents\<newline>''
     @ ''- Access the main agent'' @ [CHR 0x27] @ ''s conversation history\<newline>\<newline>''
     @ ''## Workspace\<newline>''
     @ ''Your workspace is at: '' @ workspace @ ''\<newline>\<newline>''
     @ ''When you have completed the task, provide a clear summary of your findings or actions.''"

definition initialLoop :: "string \<Rightarrow> string \<Rightarrow> LoopState" where
  "initialLoop systemPrompt task =
     \<lparr>iteration = 0, messages = [SystemMessage systemPrompt, UserMessage task],
      finalResult = None, failure = None, chatLog = []\<rparr>"

definition runSubagent ::
  "provider \<Rightarrow> ToolRegistry \<Rightarrow> string \<Rightarrow> int \<Rightarrow> string \<Rightarrow> string \<Rightarrow> string \<Rightarrow> Origin
    \<Rightarrow> InboundMessage AsyncQueue \<Rightarrow> InboundMessage AsyncQueue" where
  "runSubagent chat tools workspace now taskId task label origin inbound =
     (let st = agentLoop chat tools (initialLoop (buildSubagentPrompt workspace task) task)
      in case failure st of
           None \<Rightarrow>
             announceResult now taskId label task
               (case finalResult st of None \<Rightarrow> placeholderResult | Some text \<Rightarrow> text)
               origin AnnounceOk inbound
         | Some err \<Rightarrow>
             announceResult now taskId label task (''Error: '' @ String_of err)
               origin AnnounceError inbound)"

text \<open>A model that asks for a tool in every answer, and the origin of a command-line chat.\<close>

definition neverDone :: provider where
  "neverDone msgs =
     Inr \<lparr>content = None,
          toolCalls = [\<lparr>toolCallId = ''call-1'', toolName = ''list_dir'', arguments = ''{}''\<rparr>],
          finishReason = ''tool-calls''\<rparr>"

definition cliOrigin :: Origin where
  "cliOrigin = \<lparr>originChannel = ''cli'', originChatId = ''direct''\<rparr>"

text \<open>An answer of the model that asks for tools.\<close>

definition usesTools :: "(thrown + LLMResponse) \<Rightarrow> bool" where
  "usesTools answer = (case answer of Inl err \<Rightarrow> False | Inr response \<Rightarrow> hasToolCalls response)"

section \<open>Properties of the next-run computation\<close>

lemma truthyNum_Some [simp]: "truthyNum (Some n) = (n \<noteq> 0)"
  by (simp add: truthyNum_def)

lemma truthyNum_None [simp]: "truthyNum None = False"
  by (simp add: truthyNum_def)

lemma truthyStr_Some [simp]: "truthyStr (Some s) = (s \<noteq> [])"
  by (simp add: truthyStr_def)

lemma truthyStr_None [simp]: "truthyStr None = False"
  by (simp add: truthyStr_def)

text \<open>
  C3: for every schedule of kind \<open>at\<close> and every current time \<open>t\<close>, \<open>computeNextRun\<close>
  returns \<open>atMs\<close> if \<open>atMs > t\<close> and \<^verbatim>\<open>undefined\<close> otherwise; it never returns a value
  less than or equal to \<open>t\<close>. \<open>computeNextRun\<close> is private to its module and each of
  its callers passes the reading of \<^verbatim>\<open>Date.now()\<close>, milliseconds since 1970, so a
  current time is not negative; the truthiness guard \<^verbatim>\<open>schedule.atMs && ...\<close> then agrees
  with the comparison, since an \<open>atMs\<close> of \<open>0\<close> is not greater than \<open>t\<close>. The second part
  holds at every \<open>t\<close>.
\<close>

theorem C3_at_next_run:
  "kind sch = At \<Longrightarrow>
     (0 \<le> t \<longrightarrow>
        computeNextRun parser sch t =
          (case atMs sch of
             None \<Rightarrow> None
           | Some a \<Rightarrow> if a > t then Some a else None))
     \<and> (\<forall>r. computeNextRun parser sch t = Some r \<longrightarrow> r > t)"
  by (auto simp: computeNextRun_def split: option.splits)

theorem C3_at_next_run_witness:
  "kind atLater = At \<and> (0::int) \<le> 1000 \<and> (0::int) \<le> 1500
   \<and> computeNextRun noCron atLater 1000 = Some 1500
   \<and> computeNextRun noCron atLater 1500 = None"
  using C3_at_next_run [of atLater 1000 noCron] C3_at_next_run [of atLater 1500 noCron]
  by (simp add: atLater_def)

text \<open>
  C8: for every schedule of kind \<open>cron\<close> whose expression the parser rejects (the
  library call throws), \<open>computeNextRun\<close> returns \<^verbatim>\<open>undefined\<close> at every current time.
  The only throwing call of the source sits inside the \<^verbatim>\<open>try\<close> block whose \<^verbatim>\<open>catch\<close>
  returns \<^verbatim>\<open>undefined\<close>, so the result type of the model has no exception value:
  whatever the parser throws, the function returns.
\<close>

theorem C8_cron_invalid:
  "kind sch = Cron \<Longrightarrow> expr sch = Some e \<Longrightarrow> parser e (tz sch) t = Inl err \<Longrightarrow>
     computeNextRun parser sch t = None"
  by (simp add: computeNextRun_def)

theorem C8_cron_invalid_witness:
  "kind cronBroken = Cron \<and> expr cronBroken = Some ''not a cron''
   \<and> dailyOnly ''not a cron'' (tz cronBroken) 1000
       = Inl (ThrownError ''Error'' ''Invalid cron expression'')
   \<and> computeNextRun dailyOnly cronBroken 1000 = None"
  using C8_cron_invalid [of cronBroken "''not a cron''" dailyOnly 1000
      "ThrownError ''Error'' ''Invalid cron expression''"]
  by (simp add: cronBroken_def dailyOnly_def)

section \<open>Properties of job execution\<close>

lemmas step_defs = nowMs_def modifyState_def modifyJob_def Let_def

lemma heartbeatSkips_ticks [simp]: "heartbeatSkips (s\<lparr>ticks := n\<rparr>) r = heartbeatSkips s r"
  by (simp add: heartbeatSkips_def checkHeartbeatFile_def)

lemma outcomeOf_ticks [simp]: "outcomeOf (s\<lparr>ticks := n\<rparr>) r = outcomeOf s r"
  by (cases "onJob s") (simp_all add: outcomeOf_def)

lemma fulfilled_stateAfter: "rejection p = None \<Longrightarrow> p = Fulfilled (stateAfter p)"
  by (cases p) simp_all

lemma String_js_case:
  "String_js err = (case err of Renders e \<Rightarrow> Inr (String_of e) | NoRendering e \<Rightarrow> Inl e)"
  by (cases err) simp_all

lemma executeJob_unfold:
  "executeJob r s =
     (if heartbeatSkips s r
      then Fulfilled (skipJob r (clock s (ticks s)) (s\<lparr>ticks := Suc (ticks s)\<rparr>))
      else (case invokeCallback r (s\<lparr>ticks := Suc (ticks s)\<rparr>) of
              Rejected e s2 \<Rightarrow> Rejected e s2
            | Fulfilled s2 \<Rightarrow> Fulfilled (finishJob r (clock s (ticks s)) s2)))"
  by (simp add: executeJob_def nowMs_def)

lemma filter_other_ids:
  "x = jobId (h r) \<Longrightarrow>
     filter (\<lambda>r'. r' \<noteq> r \<and> (r' \<noteq> r \<longrightarrow> jobId (h r') \<noteq> x)) xs = filter (\<lambda>r'. jobId (h r') \<noteq> x) xs"
  by (rule filter_cong) auto

text \<open>The early return of \<open>executeJob\<close>.\<close>

lemma skipJob_env:
  "onJob (skipJob r t s) = onJob s"
  "cronNext (skipJob r t s) = cronNext s"
  "clock (skipJob r t s) = clock s"
  "heartbeatFile (skipJob r t s) = heartbeatFile s"
  "running (skipJob r t s) = running s"
  "heartbeatJobId (skipJob r t s) = heartbeatJobId s"
  "store (skipJob r t s) = store s"
  "calls (skipJob r t s) = calls s"
  "ticks (skipJob r t s) = ticks s + 2"
  by (simp_all add: skipJob_def step_defs)

lemma skipJob_heap:
  "heap (skipJob r t s) =
     (heap s)(r := (heap s r)
       \<lparr>updatedAtMs := clock s (ticks s),
        state := (state (heap s r))
          \<lparr>lastStatus := Some StatusSkipped, lastRunAtMs := Some t,
            nextRunAtMs := computeNextRun (cronNext s) (schedule (heap s r)) (clock s (ticks s + 1))\<rparr>\<rparr>)"
  by (simp add: skipJob_def step_defs)

text \<open>The callback and its \<^verbatim>\<open>catch\<close>, whether the \<^verbatim>\<open>catch\<close> block completes or throws.\<close>

lemma invokeCallback_env:
  "onJob (stateAfter (invokeCallback r s)) = onJob s"
  "cronNext (stateAfter (invokeCallback r s)) = cronNext s"
  "clock (stateAfter (invokeCallback r s)) = clock s"
  "heartbeatFile (stateAfter (invokeCallback r s)) = heartbeatFile s"
  "running (stateAfter (invokeCallback r s)) = running s"
  "heartbeatJobId (stateAfter (invokeCallback r s)) = heartbeatJobId s"
  "store (stateAfter (invokeCallback r s)) = store s"
  "ticks (stateAfter (invokeCallback r s)) = ticks s"
  by (simp_all add: invokeCallback_def step_defs split: option.splits sum.splits)

lemma invokeCallback_calls:
  "calls (stateAfter (invokeCallback r s)) =
     calls s @ (if onJob s \<noteq> None then [heap s r] else [])"
  by (simp add: invokeCallback_def step_defs split: option.splits sum.splits)

lemma invokeCallback_rejection:
  "rejection (invokeCallback r s) =
     (case outcomeOf s r of
        None \<Rightarrow> None
      | Some (Renders e) \<Rightarrow> None
      | Some (NoRendering e) \<Rightarrow> Some e)"
  by (simp add: invokeCallback_def outcomeOf_def step_defs String_js_case
      split: option.splits reason.splits)

lemma invokeCallback_heap_other:
  "r' \<noteq> r \<Longrightarrow> heap (stateAfter (invokeCallback r s)) r' = heap s r'"
  by (simp add: invokeCallback_def step_defs split: option.splits sum.splits)

lemma invokeCallback_static:
  "jobId (heap (stateAfter (invokeCallback r s)) r') = jobId (heap s r')"
  "payload (heap (stateAfter (invokeCallback r s)) r') = payload (heap s r')"
  "schedule (heap (stateAfter (invokeCallback r s)) r') = schedule (heap s r')"
  "deleteAfterRun (heap (stateAfter (invokeCallback r s)) r') = deleteAfterRun (heap s r')"
  "enabled (heap (stateAfter (invokeCallback r s)) r') = enabled (heap s r')"
  "nextRunAtMs (state (heap (stateAfter (invokeCallback r s)) r')) = nextRunAtMs (state (heap s r'))"
  "lastRunAtMs (state (heap (stateAfter (invokeCallback r s)) r')) = lastRunAtMs (state (heap s r'))"
  by (simp_all add: invokeCallback_def step_defs split: option.splits sum.splits)

lemma invokeCallback_status:
  "lastStatus (state (heap (stateAfter (invokeCallback r s)) r)) =
     Some (case outcomeOf s r of None \<Rightarrow> StatusOk | Some err \<Rightarrow> StatusError)"
  "lastError (state (heap (stateAfter (invokeCallback r s)) r)) =
     (case outcomeOf s r of
        None \<Rightarrow> None
      | Some (Renders e) \<Rightarrow> Some (String_of e)
      | Some (NoRendering e) \<Rightarrow> lastError (state (heap s r)))"
  by (simp_all add: invokeCallback_def outcomeOf_def step_defs String_js_case
      split: option.splits reason.splits)

text \<open>Bookkeeping and one-shot handling.\<close>

lemma finishJob_env:
  "onJob (finishJob r t s) = onJob s"
  "cronNext (finishJob r t s) = cronNext s"
  "clock (finishJob r t s) = clock s"
  "heartbeatFile (finishJob r t s) = heartbeatFile s"
  "running (finishJob r t s) = running s"
  "heartbeatJobId (finishJob r t s) = heartbeatJobId s"
  "calls (finishJob r t s) = calls s"
  by (simp_all add: finishJob_def step_defs)

lemma finishJob_store:
  "store (finishJob r t s) =
     (if kind (schedule (heap s r)) = At \<and> deleteAfterRun (heap s r) \<and> store s \<noteq> None
      then Some ((the (store s))
             \<lparr>jobs := filter (\<lambda>r'. jobId (heap s r') \<noteq> jobId (heap s r)) (jobs (the (store s)))\<rparr>)
      else store s)"
  by (simp add: finishJob_def step_defs filter_other_ids)

lemma finishJob_heap_other:
  "r' \<noteq> r \<Longrightarrow> heap (finishJob r t s) r' = heap s r'"
  by (simp add: finishJob_def step_defs)

lemma finishJob_static:
  "jobId (heap (finishJob r t s) r') = jobId (heap s r')"
  "payload (heap (finishJob r t s) r') = payload (heap s r')"
  "schedule (heap (finishJob r t s) r') = schedule (heap s r')"
  "deleteAfterRun (heap (finishJob r t s) r') = deleteAfterRun (heap s r')"
  "lastStatus (state (heap (finishJob r t s) r')) = lastStatus (state (heap s r'))"
  "lastError (state (heap (finishJob r t s) r')) = lastError (state (heap s r'))"
  by (simp_all add: finishJob_def step_defs)

lemma finishJob_fields:
  "lastRunAtMs (state (heap (finishJob r t s) r)) = Some t"
  "enabled (heap (finishJob r t s) r) =
     (if kind (schedule (heap s r)) = At \<and> \<not> (deleteAfterRun (heap s r) \<and> store s \<noteq> None)
      then False else enabled (heap s r))"
  "nextRunAtMs (state (heap (finishJob r t s) r)) =
     (if kind (schedule (heap s r)) = At then
        (if deleteAfterRun (heap s r) \<and> store s \<noteq> None then nextRunAtMs (state (heap s r)) else None)
      else computeNextRun (cronNext s) (schedule (heap s r)) (clock s (ticks s + 1)))"
  by (auto simp: finishJob_def step_defs)

text \<open>The whole of \<open>executeJob\<close>.\<close>

lemmas part_env = skipJob_env invokeCallback_env finishJob_env

lemmas part_heap =
  skipJob_heap finishJob_heap_other finishJob_static finishJob_fields
  invokeCallback_heap_other invokeCallback_static invokeCallback_status

lemma executeJob_rejection:
  "rejection (executeJob r s) =
     (if heartbeatSkips s r then None
      else (case outcomeOf s r of
              None \<Rightarrow> None
            | Some (Renders e) \<Rightarrow> None
            | Some (NoRendering e) \<Rightarrow> Some e))"
proof (cases "invokeCallback r (s\<lparr>ticks := Suc (ticks s)\<rparr>)")
  case (Fulfilled s2)
  with invokeCallback_rejection [of r "s\<lparr>ticks := Suc (ticks s)\<rparr>"]
  show ?thesis
    by (simp add: executeJob_unfold)
next
  case (Rejected e s2)
  with invokeCallback_rejection [of r "s\<lparr>ticks := Suc (ticks s)\<rparr>"]
  show ?thesis
    by (simp add: executeJob_unfold)
qed

lemma executeJob_stateAfter:
  "stateAfter (executeJob r s) =
     (if heartbeatSkips s r then skipJob r (clock s (ticks s)) (s\<lparr>ticks := Suc (ticks s)\<rparr>)
      else if rejection (executeJob r s) = None
      then finishJob r (clock s (ticks s))
             (stateAfter (invokeCallback r (s\<lparr>ticks := Suc (ticks s)\<rparr>)))
      else stateAfter (invokeCallback r (s\<lparr>ticks := Suc (ticks s)\<rparr>)))"
  by (cases "invokeCallback r (s\<lparr>ticks := Suc (ticks s)\<rparr>)") (simp_all add: executeJob_unfold)

lemma executeJob_fulfilled:
  "executeJob r s = Fulfilled s' \<Longrightarrow>
     s' = (if heartbeatSkips s r then skipJob r (clock s (ticks s)) (s\<lparr>ticks := Suc (ticks s)\<rparr>)
           else finishJob r (clock s (ticks s))
                  (stateAfter (invokeCallback r (s\<lparr>ticks := Suc (ticks s)\<rparr>))))"
  by (cases "invokeCallback r (s\<lparr>ticks := Suc (ticks s)\<rparr>)")
    (simp_all add: executeJob_unfold split: if_splits)

lemma executeJob_env:
  "onJob (stateAfter (executeJob r s)) = onJob s"
  "cronNext (stateAfter (executeJob r s)) = cronNext s"
  "clock (stateAfter (executeJob r s)) = clock s"
  "heartbeatFile (stateAfter (executeJob r s)) = heartbeatFile s"
  "running (stateAfter (executeJob r s)) = running s"
  "heartbeatJobId (stateAfter (executeJob r s)) = heartbeatJobId s"
  by (simp_all add: executeJob_stateAfter part_env)

lemma executeJob_static:
  "jobId (heap (stateAfter (executeJob r s)) r') = jobId (heap s r')"
  "payload (heap (stateAfter (executeJob r s)) r') = payload (heap s r')"
  "schedule (heap (stateAfter (executeJob r s)) r') = schedule (heap s r')"
  "deleteAfterRun (heap (stateAfter (executeJob r s)) r') = deleteAfterRun (heap s r')"
  by (simp_all add: executeJob_stateAfter part_heap part_env)

lemma executeJob_calls:
  "calls (stateAfter (executeJob r s)) =
     calls s @ (if \<not> heartbeatSkips s r \<and> onJob s \<noteq> None then [heap s r] else [])"
  by (simp add: executeJob_stateAfter part_env invokeCallback_calls)

lemma executeJob_store:
  "store s = Some st \<Longrightarrow> executeJob r s = Fulfilled s' \<Longrightarrow>
     store s' =
       Some (st\<lparr>jobs :=
         (if \<not> heartbeatSkips s r \<and> kind (schedule (heap s r)) = At \<and> deleteAfterRun (heap s r)
          then filter (\<lambda>r'. jobId (heap s r') \<noteq> jobId (heap s r)) (jobs st)
          else jobs st)\<rparr>)"
  by (drule executeJob_fulfilled) (simp add: finishJob_store part_heap part_env)

lemma executeJob_oneshot:
  "executeJob r s = Fulfilled s' \<Longrightarrow> \<not> heartbeatSkips s r \<Longrightarrow>
     kind (schedule (heap s r)) = At \<Longrightarrow> \<not> (deleteAfterRun (heap s r) \<and> store s \<noteq> None) \<Longrightarrow>
     enabled (heap s' r) = False \<and> nextRunAtMs (state (heap s' r)) = None"
  by (drule executeJob_fulfilled) (auto simp: part_heap part_env)

lemma executeJob_recurring:
  "executeJob r s = Fulfilled s' \<Longrightarrow> kind (schedule (heap s r)) \<noteq> At \<Longrightarrow>
     nextRunAtMs (state (heap s' r)) =
       computeNextRun (cronNext s) (schedule (heap s r)) (clock s (ticks s + 2))
   \<and> enabled (heap s' r) = enabled (heap s r)"
  by (drule executeJob_fulfilled) (simp add: part_heap part_env)

lemma executeJob_skipped:
  "heartbeatSkips s r \<Longrightarrow>
     rejection (executeJob r s) = None
   \<and> lastStatus (state (heap (stateAfter (executeJob r s)) r)) = Some StatusSkipped
   \<and> calls (stateAfter (executeJob r s)) = calls s
   \<and> nextRunAtMs (state (heap (stateAfter (executeJob r s)) r)) =
       computeNextRun (cronNext s) (schedule (heap s r)) (clock s (ticks s + 2))
   \<and> enabled (heap (stateAfter (executeJob r s)) r) = enabled (heap s r)
   \<and> store (stateAfter (executeJob r s)) = store s"
  by (simp add: executeJob_unfold skipJob_heap part_env)

lemma saveStore_frame:
  "heap (saveStore s) = heap s" "store (saveStore s) = store s" "calls (saveStore s) = calls s"
  "running (saveStore s) = running s" "heartbeatJobId (saveStore s) = heartbeatJobId s"
  by (simp_all add: saveStore_def Let_def split: option.splits)

lemma armTimer_frame:
  "heap (armTimer s) = heap s" "store (armTimer s) = store s" "calls (armTimer s) = calls s"
  "heartbeatJobId (armTimer s) = heartbeatJobId s"
  by (simp_all add: armTimer_def nowMs_def Let_def)

lemma onTimer_unfold:
  "store s = Some st \<Longrightarrow>
     onTimer s =
       (case executeAll (filter (\<lambda>r. dueJob (clock s (ticks s)) (heap s r)) (jobs st))
               (s\<lparr>ticks := Suc (ticks s)\<rparr>) of
          Rejected e s2 \<Rightarrow> Rejected e s2
        | Fulfilled s2 \<Rightarrow> Fulfilled (armTimer (saveStore s2)))"
  by (simp add: onTimer_def nowMs_def)

lemma onTimer_single:
  "store s = Some st \<Longrightarrow>
     filter (\<lambda>r. dueJob (clock s (ticks s)) (heap s r)) (jobs st) = [r] \<Longrightarrow>
     rejection (executeJob r (s\<lparr>ticks := Suc (ticks s)\<rparr>)) = None \<Longrightarrow>
     onTimer s =
       Fulfilled (armTimer (saveStore (stateAfter (executeJob r (s\<lparr>ticks := Suc (ticks s)\<rparr>)))))"
  by (cases "executeJob r (s\<lparr>ticks := Suc (ticks s)\<rparr>)") (simp_all add: onTimer_unfold)

lemma onTimer_rejected:
  "store s = Some st \<Longrightarrow>
     filter (\<lambda>r. dueJob (clock s (ticks s)) (heap s r)) (jobs st) = r # rs \<Longrightarrow>
     rejection (executeJob r (s\<lparr>ticks := Suc (ticks s)\<rparr>)) \<noteq> None \<Longrightarrow>
     onTimer s = executeJob r (s\<lparr>ticks := Suc (ticks s)\<rparr>)"
  by (cases "executeJob r (s\<lparr>ticks := Suc (ticks s)\<rparr>)") (simp_all add: onTimer_unfold)

text \<open>
  C1 holds of the callbacks that reject with a value \<^verbatim>\<open>String()\<close> can render, and fails
  on the code for the others. The \<^verbatim>\<open>catch\<close> block of \<open>executeJob\<close> evaluates
  \<^verbatim>\<open>String(error)\<close> unguarded. With two due jobs and a callback that rejects, for the
  first, with an object that has no \<^verbatim>\<open>toString\<close>, the timer callback runs as follows:
  \<open>lastStatus\<close> of the first job is set to \<open>error\<close>, the conversion throws a
  \<^verbatim>\<open>TypeError\<close>, \<open>lastError\<close> stays undefined, the promise of \<open>onTimer\<close> is rejected
  with the \<^verbatim>\<open>TypeError\<close>, the second due job is not executed (the callback was called
  once and the job has no \<open>lastRunAtMs\<close>), the store file is not written and no timer is
  pending afterwards.
\<close>

theorem C1_unrenderable_rejection:
  "dueJob (clock bareObjectScheduler (ticks bareObjectScheduler)) (heap bareObjectScheduler 0)
   \<and> dueJob (clock bareObjectScheduler (ticks bareObjectScheduler)) (heap bareObjectScheduler 1)
   \<and> running bareObjectScheduler
   \<and> outcomeOf bareObjectScheduler 0 = Some (NoRendering conversionError)
   \<and> rejection (timerFired bareObjectScheduler) = Some conversionError
   \<and> lastStatus (state (heap (stateAfter (timerFired bareObjectScheduler)) 0)) = Some StatusError
   \<and> lastError (state (heap (stateAfter (timerFired bareObjectScheduler)) 0)) = None
   \<and> calls (stateAfter (timerFired bareObjectScheduler)) = [sampleJob]
   \<and> lastRunAtMs (state (heap (stateAfter (timerFired bareObjectScheduler)) 1)) = None
   \<and> storeFile (stateAfter (timerFired bareObjectScheduler)) = storeFile bareObjectScheduler
   \<and> timerTimeout (stateAfter (timerFired bareObjectScheduler)) = None"
proof -
  let ?s0 = "bareObjectScheduler\<lparr>timerTimeout := None\<rparr>"
  let ?s1 = "?s0\<lparr>ticks := Suc (ticks ?s0)\<rparr>"
  note defs = bareObjectScheduler_def sampleScheduler_def sampleJob_def sampleEvery_def
    sampleClock_def throwsBareObject_def
  have start: "store ?s0 = Some \<lparr>version = 1, jobs = [0, 1]\<rparr>" "running bareObjectScheduler"
    by (simp_all add: defs)
  have due: "filter (\<lambda>r. dueJob (clock ?s0 (ticks ?s0)) (heap ?s0 r))
               (jobs \<lparr>version = 1, jobs = [0, 1]\<rparr>) = [0, 1]"
    "dueJob (clock bareObjectScheduler (ticks bareObjectScheduler)) (heap bareObjectScheduler 0)"
    "dueJob (clock bareObjectScheduler (ticks bareObjectScheduler)) (heap bareObjectScheduler 1)"
    by (simp_all add: defs dueJob_def)
  have gate: "\<not> heartbeatSkips ?s1 0"
    by (simp add: heartbeatSkips_def defs)
  have out: "outcomeOf ?s1 0 = Some (NoRendering conversionError)"
    "outcomeOf bareObjectScheduler 0 = Some (NoRendering conversionError)"
    by (simp_all add: outcomeOf_def defs)
  have rej: "rejection (executeJob 0 ?s1) = Some conversionError"
    using gate out(1) by (simp add: executeJob_rejection)
  have "timerFired bareObjectScheduler = onTimer ?s0"
    using start(2) by (simp add: timerFired_def)
  also have "\<dots> = executeJob 0 ?s1"
  proof -
    from rej have "rejection (executeJob 0 ?s1) \<noteq> None" by simp
    with start(1) due(1) show ?thesis by (rule onTimer_rejected)
  qed
  finally have tick: "timerFired bareObjectScheduler = executeJob 0 ?s1" .
  have after: "stateAfter (executeJob 0 ?s1)
      = stateAfter (invokeCallback 0 (?s1\<lparr>ticks := Suc (ticks ?s1)\<rparr>))"
    using gate rej by (simp add: executeJob_stateAfter)
  have fields:
    "lastStatus (state (heap (stateAfter (executeJob 0 ?s1)) 0)) = Some StatusError"
    "lastError (state (heap (stateAfter (executeJob 0 ?s1)) 0)) = None"
    "calls (stateAfter (executeJob 0 ?s1)) = [sampleJob]"
    "lastRunAtMs (state (heap (stateAfter (executeJob 0 ?s1)) 1)) = None"
    "storeFile (stateAfter (executeJob 0 ?s1)) = storeFile bareObjectScheduler"
    "timerTimeout (stateAfter (executeJob 0 ?s1)) = None"
    unfolding after
    by (simp_all add: invokeCallback_def step_defs defs conversionError_def)
  show ?thesis
    unfolding tick using due(2,3) out(2) rej fields start(2) by simp
qed

section \<open>Properties of the heartbeat gate and of one-shot jobs\<close>

lemma all_dropWhile: "(\<forall>c \<in> set (dropWhile P xs). P c) \<longleftrightarrow> (\<forall>c \<in> set xs. P c)"
  by (induction xs) auto

lemma trim_empty: "trim line = [] \<longleftrightarrow> blankLine line"
  by (simp add: trim_def blankLine_def all_dropWhile)

lemma skipLine_spec: "skipLine line \<longleftrightarrow> passedOverLine line"
proof -
  have h: "startsWith (trim line) ''#'' \<longleftrightarrow> hashLine line"
    by (cases "trim line") (simp_all add: startsWith_def hashLine_def)
  have c: "startsWith (trim line) ''<!--'' \<longleftrightarrow> commentOpenLine line"
    by (simp add: startsWith_def commentOpenLine_def eval_nat_numeral)
  have b: "trim line \<in> set skipPatterns \<longleftrightarrow> listedMarkerLine line"
    by (simp add: skipPatterns_def listedMarkerLine_def)
  show ?thesis
    by (simp only: skipLine_def Let_def passedOverLine_def trim_empty h c b)
qed

lemma scanLines_all: "scanLines ls \<longleftrightarrow> (\<forall>line \<in> set ls. passedOverLine line)"
  by (induction ls) (simp_all add: skipLine_spec)

lemma isHeartbeatEmpty_spec:
  "isHeartbeatEmpty (Some c) \<longleftrightarrow> (\<forall>line \<in> set (splitOn (CHR 0x0A) c). passedOverLine line)"
proof (cases "c = []")
  case True
  then show ?thesis
    by (simp add: isHeartbeatEmpty_def passedOverLine_def blankLine_def)
next
  case False
  then show ?thesis
    by (simp add: isHeartbeatEmpty_def scanLines_all)
qed

text \<open>
  Of the line kinds of the specification, the headings, the HTML comments and four of
  the nine bare checkbox markers are among the lines that the code passes over.
\<close>

lemma markdownHeading_passedOver: "markdownHeading line \<Longrightarrow> passedOverLine line"
  by (cases "trim line") (auto simp: markdownHeading_def passedOverLine_def hashLine_def Let_def)

lemma htmlComment_passedOver: "htmlComment line \<Longrightarrow> passedOverLine line"
  by (simp add: htmlComment_def passedOverLine_def commentOpenLine_def)

lemma listedMarker_bareCheckbox: "listedMarkerLine line \<Longrightarrow> bareCheckbox line"
  by (auto simp: listedMarkerLine_def bareCheckbox_def checkboxMarkers_def)

text \<open>
  C6, as stated, fails on the code in both directions. The line \<^verbatim>\<open>- [X]\<close> is a bare
  checked checkbox marker with no other text, so the claim asks for a skipped run; the
  code lists only \<^verbatim>\<open>- [ ]\<close>, \<^verbatim>\<open>* [ ]\<close>, \<^verbatim>\<open>- [x]\<close> and \<^verbatim>\<open>* [x]\<close>, and invokes the
  callback. The lines \<^verbatim>\<open><!-- note --> water the plants\<close> and
  \<^verbatim>\<open>#1 call the bank today\<close> are neither blank, nor a heading, nor an HTML comment,
  nor a checkbox marker, so the claim asks for the callback to be invoked; the code
  tests only how the line begins, and skips the run.
\<close>

theorem C6_line_kinds_counterexample:
  "payloadKind (payload (heap (heartbeatScheduler (Contents ''- [X]'')) 0)) = Heartbeat
   \<and> splitOn (CHR 0x0A) ''- [X]'' = [''- [X]'']
   \<and> nothingToDoLine ''- [X]''
   \<and> calls (heartbeatScheduler (Contents ''- [X]'')) = []
   \<and> calls (stateAfter (executeJob 0 (heartbeatScheduler (Contents ''- [X]'')))) = [heartbeatJob]
   \<and> splitOn (CHR 0x0A) ''<!-- note --> water the plants'' = [''<!-- note --> water the plants'']
   \<and> \<not> nothingToDoLine ''<!-- note --> water the plants''
   \<and> lastStatus (state (heap (stateAfter
         (executeJob 0 (heartbeatScheduler (Contents ''<!-- note --> water the plants'')))) 0))
       = Some StatusSkipped
   \<and> calls (stateAfter
         (executeJob 0 (heartbeatScheduler (Contents ''<!-- note --> water the plants'')))) = []
   \<and> \<not> nothingToDoLine ''#1 call the bank today''
   \<and> calls (stateAfter
         (executeJob 0 (heartbeatScheduler (Contents ''#1 call the bank today'')))) = []"
proof -
  have kinds: "nothingToDoLine ''- [X]''"
    "\<not> nothingToDoLine ''<!-- note --> water the plants''"
    "\<not> nothingToDoLine ''#1 call the bank today''"
    by (simp_all add: nothingToDoLine_def blankLine_def markdownHeading_def htmlComment_def
        bareCheckbox_def checkboxMarkers_def trim_def isWhiteSpace_def Let_def)
  have st: "payloadKind (payload (heap (heartbeatScheduler f) 0)) = Heartbeat"
    "heartbeatFile (heartbeatScheduler f) = f"
    "onJob (heartbeatScheduler f) = Some throwsForReminder"
    "calls (heartbeatScheduler f) = []"
    "heap (heartbeatScheduler f) 0 = heartbeatJob" for f
    by (simp_all add: heartbeatScheduler_def sampleScheduler_def heartbeatJob_def)
  have passed: "\<not> passedOverLine ''- [X]''"
    "passedOverLine ''<!-- note --> water the plants''"
    "passedOverLine ''#1 call the bank today''"
    by (simp_all add: passedOverLine_def blankLine_def hashLine_def commentOpenLine_def
        listedMarkerLine_def trim_def isWhiteSpace_def)
  have gate: "\<not> heartbeatSkips (heartbeatScheduler (Contents ''- [X]'')) 0"
    "heartbeatSkips (heartbeatScheduler (Contents ''<!-- note --> water the plants'')) 0"
    "heartbeatSkips (heartbeatScheduler (Contents ''#1 call the bank today'')) 0"
    by (simp_all add: heartbeatSkips_def checkHeartbeatFile_def isHeartbeatEmpty_spec st passed
        heartbeatJob_def)
  show ?thesis
    using kinds gate executeJob_skipped [OF gate(2)] executeJob_skipped [OF gate(3)]
    by (simp add: executeJob_calls st heartbeatJob_def)
qed

text \<open>
  C6, amended: for a job with \<open>payload.kind = heartbeat\<close>: if \<^verbatim>\<open>HEARTBEAT.md\<close> is absent,
  or every one of its lines is blank, or begins (after trimming) with \<open>#\<close> or with
  \<^verbatim>\<open><!--\<close>, or is (after trimming) exactly one of \<^verbatim>\<open>- [ ]\<close>, \<^verbatim>\<open>* [ ]\<close>, \<^verbatim>\<open>- [x]\<close>,
  \<^verbatim>\<open>* [x]\<close>, then the job completes with \<open>lastStatus = skipped\<close>, the callback is not
  invoked and \<open>nextRunAtMs\<close> is recomputed (from a clock reading taken after the check);
  if the file has any other line, the registered callback is invoked with the job.
\<close>

theorem C6_heartbeat_gate:
  assumes hb: "payloadKind (payload (heap s r)) = Heartbeat"
  shows "(heartbeatFile s = Missing
          \<or> (\<exists>c. heartbeatFile s = Contents c
                \<and> (\<forall>line \<in> set (splitOn (CHR 0x0A) c). passedOverLine line))
        \<longrightarrow> rejection (executeJob r s) = None
          \<and> lastStatus (state (heap (stateAfter (executeJob r s)) r)) = Some StatusSkipped
          \<and> calls (stateAfter (executeJob r s)) = calls s
          \<and> nextRunAtMs (state (heap (stateAfter (executeJob r s)) r)) =
              computeNextRun (cronNext s) (schedule (heap s r)) (clock s (ticks s + 2)))
    \<and> (\<forall>c callback. heartbeatFile s = Contents c
          \<and> (\<exists>line \<in> set (splitOn (CHR 0x0A) c). \<not> passedOverLine line)
          \<and> onJob s = Some callback
        \<longrightarrow> calls (stateAfter (executeJob r s)) = calls s @ [heap s r])"
proof -
  have skip: "heartbeatSkips s r"
    if "heartbeatFile s = Missing
          \<or> (\<exists>c. heartbeatFile s = Contents c
                \<and> (\<forall>line \<in> set (splitOn (CHR 0x0A) c). passedOverLine line))"
    using that hb by (auto simp: heartbeatSkips_def checkHeartbeatFile_def isHeartbeatEmpty_spec)
  have run: "\<not> heartbeatSkips s r"
    if "heartbeatFile s = Contents c" and "\<exists>line \<in> set (splitOn (CHR 0x0A) c). \<not> passedOverLine line"
    for c
    using that by (simp add: heartbeatSkips_def checkHeartbeatFile_def isHeartbeatEmpty_spec)
  show ?thesis
    using skip run executeJob_skipped [of s r] executeJob_calls [of r s] by auto
qed

theorem C6_heartbeat_gate_witness:
  "rejection (executeJob 0 (heartbeatScheduler (Contents ''# Notes\<newline>- [ ] \<newline>''))) = None
   \<and> lastStatus (state (heap (stateAfter
         (executeJob 0 (heartbeatScheduler (Contents ''# Notes\<newline>- [ ] \<newline>'')))) 0))
     = Some StatusSkipped
   \<and> calls (stateAfter (executeJob 0 (heartbeatScheduler (Contents ''# Notes\<newline>- [ ] \<newline>'')))) = []
   \<and> nextRunAtMs (state (heap (stateAfter
         (executeJob 0 (heartbeatScheduler (Contents ''# Notes\<newline>- [ ] \<newline>'')))) 0))
     = Some 1802002
   \<and> lastStatus (state (heap (stateAfter (executeJob 0 (heartbeatScheduler Missing))) 0))
     = Some StatusSkipped
   \<and> calls (stateAfter (executeJob 0 (heartbeatScheduler (Contents ''Check the oven''))))
     = [heartbeatJob]
   \<and> calls (stateAfter (executeJob 0 (heartbeatScheduler (Contents ''- [X]''))))
     = [heartbeatJob]"
proof -
  have lines: "splitOn (CHR 0x0A) ''# Notes\<newline>- [ ] \<newline>'' = [''# Notes'', ''- [ ] '', []]"
    "splitOn (CHR 0x0A) ''Check the oven'' = [''Check the oven'']"
    "splitOn (CHR 0x0A) ''- [X]'' = [''- [X]'']"
    by simp_all
  have ok: "passedOverLine ''# Notes''" "passedOverLine ''- [ ] ''" "passedOverLine []"
    "\<not> passedOverLine ''Check the oven''" "\<not> passedOverLine ''- [X]''"
    by (simp_all add: passedOverLine_def blankLine_def hashLine_def commentOpenLine_def
        listedMarkerLine_def trim_def isWhiteSpace_def)
  have st: "payloadKind (payload (heap (heartbeatScheduler f) 0)) = Heartbeat"
    "heartbeatFile (heartbeatScheduler f) = f"
    "onJob (heartbeatScheduler f) = Some throwsForReminder"
    "calls (heartbeatScheduler f) = []"
    "heap (heartbeatScheduler f) 0 = heartbeatJob"
    "cronNext (heartbeatScheduler f) = noCron"
    "clock (heartbeatScheduler f) = sampleClock"
    "ticks (heartbeatScheduler f) = 0" for f
    by (simp_all add: heartbeatScheduler_def sampleScheduler_def heartbeatJob_def)
  have nextRun: "computeNextRun noCron (schedule heartbeatJob) (sampleClock (Suc (Suc 0))) = Some 1802002"
    by (simp add: computeNextRun_def heartbeatJob_def sampleClock_def)
  from C6_heartbeat_gate [OF st(1), of "Contents ''# Notes\<newline>- [ ] \<newline>''"]
    C6_heartbeat_gate [OF st(1), of Missing]
    C6_heartbeat_gate [OF st(1), of "Contents ''Check the oven''"]
    C6_heartbeat_gate [OF st(1), of "Contents ''- [X]''"]
  show ?thesis
    by (simp add: st lines ok nextRun)
qed

lemma set_insertWith: "set (insertWith cmp x ys) = insert x (set ys)"
  by (induction ys) auto

lemma set_sortWith: "set (sortWith cmp xs) = set xs"
  by (induction xs) (simp_all add: sortWith_def set_insertWith)

lemma mset_insertWith: "mset (insertWith cmp x ys) = add_mset x (mset ys)"
  by (induction ys) auto

lemma mset_sortWith: "mset (sortWith cmp xs) = mset xs"
  by (induction xs) (simp_all add: sortWith_def mset_insertWith)

lemma listJobs_loaded:
  "store s = Some st \<Longrightarrow>
     listJobs s = (sortWith (\<lambda>a b. compareJobs (heap s a) (heap s b))
                     (filter (notHeartbeat s) (jobs st)), s)"
  by (simp add: listJobs_def loadStore_def)

lemma notHeartbeat_executeJob:
  "notHeartbeat (stateAfter (executeJob r' s)) r = notHeartbeat s r"
  by (simp add: notHeartbeat_def executeJob_env executeJob_static)

text \<open>
  C4, as stated, covers every due job of kind \<open>at\<close>, and fails on the code for two of
  them. A one-shot job that carries the heartbeat payload is stopped by the heartbeat
  gate when \<^verbatim>\<open>HEARTBEAT.md\<close> has nothing to do: \<open>executeJob\<close> returns before the one-shot
  handling, so after the tick the job is neither removed (with \<open>deleteAfterRun\<close>) nor
  disabled. And a one-shot job without \<open>deleteAfterRun\<close> whose id is the heartbeat
  job's (a stored job with the heartbeat payload, which \<open>addHeartbeatJob\<close> adopts) is
  executed and disabled in place, stays in the store, and is absent from \<open>listJobs()\<close>,
  which leaves out the job with that id.
\<close>

theorem C4_one_shot_counterexample:
  "kind (schedule (heap oneShotHeartbeatScheduler 0)) = At
   \<and> deleteAfterRun (heap oneShotHeartbeatScheduler 0)
   \<and> dueJob (clock oneShotHeartbeatScheduler (ticks oneShotHeartbeatScheduler))
        (heap oneShotHeartbeatScheduler 0)
   \<and> rejection (onTimer oneShotHeartbeatScheduler) = None
   \<and> store (stateAfter (onTimer oneShotHeartbeatScheduler)) = Some \<lparr>version = 1, jobs = [0]\<rparr>
   \<and> enabled (heap (stateAfter (onTimer oneShotHeartbeatScheduler)) 0)
   \<and> lastStatus (state (heap (stateAfter (onTimer oneShotHeartbeatScheduler)) 0))
       = Some StatusSkipped
   \<and> kind (schedule (heap adoptedHeartbeatScheduler 0)) = At
   \<and> \<not> deleteAfterRun (heap adoptedHeartbeatScheduler 0)
   \<and> dueJob (clock adoptedHeartbeatScheduler (ticks adoptedHeartbeatScheduler))
        (heap adoptedHeartbeatScheduler 0)
   \<and> \<not> heartbeatSkips adoptedHeartbeatScheduler 0
   \<and> rejection (onTimer adoptedHeartbeatScheduler) = None
   \<and> store (stateAfter (onTimer adoptedHeartbeatScheduler)) = Some \<lparr>version = 1, jobs = [0]\<rparr>
   \<and> enabled (heap (stateAfter (onTimer adoptedHeartbeatScheduler)) 0) = False
   \<and> nextRunAtMs (state (heap (stateAfter (onTimer adoptedHeartbeatScheduler)) 0)) = None
   \<and> lastStatus (state (heap (stateAfter (onTimer adoptedHeartbeatScheduler)) 0)) = Some StatusOk
   \<and> fst (listJobs (stateAfter (onTimer adoptedHeartbeatScheduler))) = []"
proof -
  let ?a = "oneShotHeartbeatScheduler"
  let ?a1 = "?a\<lparr>ticks := Suc (ticks ?a)\<rparr>"
  let ?b = "adoptedHeartbeatScheduler"
  let ?b1 = "?b\<lparr>ticks := Suc (ticks ?b)\<rparr>"
  have a: "store ?a = Some \<lparr>version = 1, jobs = [0]\<rparr>" "heap ?a 0 = oneShotHeartbeat"
    "heap ?a1 0 = oneShotHeartbeat" "store ?a1 = Some \<lparr>version = 1, jobs = [0]\<rparr>"
    "clock ?a (ticks ?a) = 2000" "heartbeatSkips ?a1 0"
    by (simp_all add: oneShotHeartbeatScheduler_def sampleScheduler_def sampleClock_def
        heartbeatSkips_def checkHeartbeatFile_def oneShotHeartbeat_def)
  have b: "store ?b = Some \<lparr>version = 1, jobs = [0]\<rparr>"
    "heap ?b 0 = oneShotHeartbeat\<lparr>deleteAfterRun := False\<rparr>"
    "heap ?b1 0 = oneShotHeartbeat\<lparr>deleteAfterRun := False\<rparr>"
    "store ?b1 = Some \<lparr>version = 1, jobs = [0]\<rparr>"
    "clock ?b (ticks ?b) = 2000" "heartbeatJobId ?b1 = Some ''c9d8e7f6''"
    "outcomeOf ?b 0 = None"
    by (simp_all add: adoptedHeartbeatScheduler_def sampleScheduler_def sampleClock_def
        outcomeOf_def throwsForReminder_def oneShotHeartbeat_def)
  have passed: "\<not> passedOverLine ''Check the oven''"
    by (simp add: passedOverLine_def blankLine_def hashLine_def commentOpenLine_def
        listedMarkerLine_def trim_def isWhiteSpace_def)
  have gate: "\<not> heartbeatSkips ?b 0" "\<not> heartbeatSkips ?b1 0"
    by (simp_all add: heartbeatSkips_def checkHeartbeatFile_def isHeartbeatEmpty_spec passed
        adoptedHeartbeatScheduler_def sampleScheduler_def)
  have due: "dueJob 2000 oneShotHeartbeat" "dueJob 2000 (oneShotHeartbeat\<lparr>deleteAfterRun := False\<rparr>)"
    "kind (schedule oneShotHeartbeat) = At" "deleteAfterRun oneShotHeartbeat"
    "jobId oneShotHeartbeat = ''c9d8e7f6''"
    by (simp_all add: dueJob_def oneShotHeartbeat_def)
  have ra: "rejection (executeJob 0 ?a1) = None"
    using a(6) by (simp add: executeJob_rejection)
  have da: "filter (\<lambda>r. dueJob (clock ?a (ticks ?a)) (heap ?a r))
              (jobs \<lparr>version = 1, jobs = [0]\<rparr>) = [0]"
    by (simp add: a due)
  have ta: "onTimer ?a = Fulfilled (armTimer (saveStore (stateAfter (executeJob 0 ?a1))))"
    using a(1) da ra by (rule onTimer_single)
  have rb: "rejection (executeJob 0 ?b1) = None"
    using gate(2) b(7) by (simp add: executeJob_rejection)
  have eb: "executeJob 0 ?b1 = Fulfilled (stateAfter (executeJob 0 ?b1))"
    using rb by (rule fulfilled_stateAfter)
  have db: "filter (\<lambda>r. dueJob (clock ?b (ticks ?b)) (heap ?b r))
              (jobs \<lparr>version = 1, jobs = [0]\<rparr>) = [0]"
    by (simp add: b due)
  have tb: "onTimer ?b = Fulfilled (armTimer (saveStore (stateAfter (executeJob 0 ?b1))))"
    using b(1) db rb by (rule onTimer_single)
  have sb: "store (stateAfter (executeJob 0 ?b1)) = Some \<lparr>version = 1, jobs = [0]\<rparr>"
    using executeJob_store [OF b(4) eb] by (simp add: b)
  have lb: "fst (listJobs (armTimer (saveStore (stateAfter (executeJob 0 ?b1))))) = []"
    using sb
    by (simp add: listJobs_def loadStore_def armTimer_frame saveStore_frame notHeartbeat_def
        executeJob_env executeJob_static b due sortWith_def)
  have fa: "store (stateAfter (executeJob 0 ?a1)) = Some \<lparr>version = 1, jobs = [0]\<rparr>"
    "enabled (heap (stateAfter (executeJob 0 ?a1)) 0)"
    "lastStatus (state (heap (stateAfter (executeJob 0 ?a1)) 0)) = Some StatusSkipped"
    using executeJob_skipped [OF a(6)] by (simp_all add: a oneShotHeartbeat_def)
  have fb: "enabled (heap (stateAfter (executeJob 0 ?b1)) 0) = False"
    "nextRunAtMs (state (heap (stateAfter (executeJob 0 ?b1)) 0)) = None"
    using executeJob_oneshot [OF eb gate(2)] by (simp_all add: b due)
  have ob: "lastStatus (state (heap (stateAfter (executeJob 0 ?b1)) 0)) = Some StatusOk"
    using gate(2) rb b(7) by (simp add: executeJob_stateAfter part_heap part_env)
  show ?thesis
    using gate(1) fa fb ob sb lb ra rb
    by (simp add: ta tb armTimer_frame saveStore_frame a b due)
qed

text \<open>
  C4, amended: after the execution of a job in the store has run to its end: provided
  the heartbeat gate did not skip it, if its schedule kind is \<open>at\<close> and \<open>deleteAfterRun\<close>
  is true, the job (with every job of the same id) is removed from the store; if its
  kind is \<open>at\<close> and \<open>deleteAfterRun\<close> is false, it stays in the store with
  \<open>enabled = false\<close> and \<open>nextRunAtMs\<close> undefined, and is present in \<open>listJobs()\<close>
  unless its id is the heartbeat job's; for every recurring job (kind \<open>every\<close> or
  \<open>cron\<close>), skipped or not, a fresh \<open>nextRunAtMs\<close> is computed from a clock reading
  taken after the run. An execution that \<open>executeJob\<close> does not complete is left out.
\<close>

theorem C4_after_execution:
  assumes st: "store s = Some st" and r: "r \<in> set (jobs st)"
    and completed: "executeJob r s = Fulfilled s'"
  shows "(\<not> heartbeatSkips s r \<and> kind (schedule (heap s r)) = At \<and> deleteAfterRun (heap s r) \<longrightarrow>
            (\<exists>st'. store s' = Some st' \<and> r \<notin> set (jobs st')
                \<and> (\<forall>r' \<in> set (jobs st'). jobId (heap s r') \<noteq> jobId (heap s r))))
    \<and> (\<not> heartbeatSkips s r \<and> kind (schedule (heap s r)) = At \<and> \<not> deleteAfterRun (heap s r) \<longrightarrow>
            enabled (heap s' r) = False
          \<and> nextRunAtMs (state (heap s' r)) = None
          \<and> (\<exists>st'. store s' = Some st' \<and> r \<in> set (jobs st'))
          \<and> (notHeartbeat s r \<longrightarrow> r \<in> set (fst (listJobs s'))))
    \<and> (kind (schedule (heap s r)) \<noteq> At \<longrightarrow>
            nextRunAtMs (state (heap s' r)) =
              computeNextRun (cronNext s) (schedule (heap s r)) (clock s (ticks s + 2)))"
proof -
  note store' = executeJob_store [OF st completed]
  have same: "s' = stateAfter (executeJob r s)"
    using completed by simp
  have 1: "\<exists>st'. store s' = Some st' \<and> r \<notin> set (jobs st')
                \<and> (\<forall>r' \<in> set (jobs st'). jobId (heap s r') \<noteq> jobId (heap s r))"
    if "\<not> heartbeatSkips s r" and "kind (schedule (heap s r)) = At" and "deleteAfterRun (heap s r)"
    using that store' by simp
  have 2: "enabled (heap s' r) = False
          \<and> nextRunAtMs (state (heap s' r)) = None
          \<and> (\<exists>st'. store s' = Some st' \<and> r \<in> set (jobs st'))
          \<and> (notHeartbeat s r \<longrightarrow> r \<in> set (fst (listJobs s')))"
    if gate: "\<not> heartbeatSkips s r" and k: "kind (schedule (heap s r)) = At"
      and nd: "\<not> deleteAfterRun (heap s r)"
  proof -
    from executeJob_oneshot [OF completed gate k] nd
    have a: "enabled (heap s' r) = False \<and> nextRunAtMs (state (heap s' r)) = None"
      by simp
    from store' nd have b: "store s' = Some st"
      by simp
    have "r \<in> set (fst (listJobs s'))" if "notHeartbeat s r"
    proof -
      from that have "notHeartbeat s' r"
        unfolding same by (simp add: notHeartbeat_executeJob)
      with r show ?thesis
        by (simp add: listJobs_loaded [OF b] set_sortWith)
    qed
    with a b r show ?thesis by simp
  qed
  have 3: "nextRunAtMs (state (heap s' r)) =
              computeNextRun (cronNext s) (schedule (heap s r)) (clock s (ticks s + 2))"
    if "kind (schedule (heap s r)) \<noteq> At"
    using executeJob_recurring [OF completed that] by simp
  from 1 2 3 show ?thesis by blast
qed

theorem C4_after_execution_witness:
  "executeJob 0 sampleScheduler = Fulfilled (stateAfter (executeJob 0 sampleScheduler))
   \<and> enabled (heap (stateAfter (executeJob 0 sampleScheduler)) 0) = False
   \<and> nextRunAtMs (state (heap (stateAfter (executeJob 0 sampleScheduler)) 0)) = None
   \<and> 0 \<in> set (fst (listJobs (stateAfter (executeJob 0 sampleScheduler))))
   \<and> executeJob 1 sampleScheduler = Fulfilled (stateAfter (executeJob 1 sampleScheduler))
   \<and> nextRunAtMs (state (heap (stateAfter (executeJob 1 sampleScheduler)) 1)) = Some 62002
   \<and> executeJob 0 deletingScheduler = Fulfilled (stateAfter (executeJob 0 deletingScheduler))
   \<and> store (stateAfter (executeJob 0 deletingScheduler)) = Some \<lparr>version = 1, jobs = []\<rparr>"
proof -
  let ?del = "deletingScheduler"
  have hyp: "store sampleScheduler = Some \<lparr>version = 1, jobs = [0, 1]\<rparr>"
    "0 \<in> set (jobs \<lparr>version = 1, jobs = [0, 1::nat]\<rparr>)"
    "1 \<in> set (jobs \<lparr>version = 1, jobs = [0, 1::nat]\<rparr>)"
    "\<not> heartbeatSkips sampleScheduler 0" "\<not> heartbeatSkips sampleScheduler 1"
    "store ?del = Some \<lparr>version = 1, jobs = [0, 1]\<rparr>" "\<not> heartbeatSkips ?del 0"
    by (simp_all add: deletingScheduler_def sampleScheduler_def sampleJob_def sampleEvery_def
        heartbeatSkips_def)
  have out: "outcomeOf sampleScheduler 0 = Some (Renders (ThrownError ''Error'' ''boom''))"
    "outcomeOf sampleScheduler 1 = None"
    "outcomeOf ?del 0 = Some (Renders (ThrownError ''Error'' ''boom''))"
    by (simp_all add: outcomeOf_def deletingScheduler_def sampleScheduler_def sampleJob_def
        sampleEvery_def throwsForReminder_def)
  have rej: "rejection (executeJob 0 sampleScheduler) = None"
    "rejection (executeJob 1 sampleScheduler) = None"
    "rejection (executeJob 0 ?del) = None"
    using hyp(4,5,7) out by (simp_all add: executeJob_rejection)
  note completed = fulfilled_stateAfter [OF rej(1)] fulfilled_stateAfter [OF rej(2)]
    fulfilled_stateAfter [OF rej(3)]
  have facts: "kind (schedule (heap sampleScheduler 0)) = At"
    "\<not> deleteAfterRun (heap sampleScheduler 0)" "notHeartbeat sampleScheduler 0"
    "kind (schedule (heap sampleScheduler 1)) \<noteq> At"
    "computeNextRun (cronNext sampleScheduler) (schedule (heap sampleScheduler 1))
       (clock sampleScheduler (ticks sampleScheduler + 2)) = Some 62002"
    "kind (schedule (heap ?del 0)) = At" "deleteAfterRun (heap ?del 0)"
    by (simp_all add: deletingScheduler_def sampleScheduler_def sampleJob_def sampleEvery_def
        notHeartbeat_def computeNextRun_def sampleClock_def)
  have del: "store (stateAfter (executeJob 0 ?del)) = Some \<lparr>version = 1, jobs = []\<rparr>"
    using executeJob_store [OF hyp(6) completed(3)] hyp(7) facts(6,7)
    by (simp add: deletingScheduler_def sampleScheduler_def)
  from C4_after_execution [OF hyp(1) hyp(2) completed(1)]
    C4_after_execution [OF hyp(1) hyp(3) completed(2)]
    C4_after_execution [OF hyp(6) hyp(2) completed(3)] facts del hyp(4,5,7) completed
  show ?thesis
    by simp
qed

section \<open>Properties of the asynchronous queue\<close>

lemma itemsOf_append: "itemsOf (xs @ ys) = itemsOf xs @ itemsOf ys"
  by (induction xs rule: itemsOf.induct) auto


lemma fst_filter_neq: "p \<in> fst ` set (filter (\<lambda>t. fst t \<noteq> q) ts) \<longleftrightarrow> p \<noteq> q \<and> p \<in> fst ` set ts"
  by (induction ts) auto

lemma inv_empty: "queueInv emptyQueue"
  by (simp add: queueInv_def emptyQueue_def)

lemma inv_push: "queueInv s \<Longrightarrow> queueInv (push x s)"
proof (cases "resolvers s")
  case Nil
  assume "queueInv s"
  with Nil show ?thesis
    by (auto simp: queueInv_def push_def itemsOf_append)
next
  case (Cons r rs)
  assume "queueInv s"
  with Cons show ?thesis
    by (cases r) (auto simp: queueInv_def push_def resolve_def clearTimeout_def
        itemsOf_append fst_filter_neq simp del: set_filter)
qed

lemma inv_pop: "queueInv s \<Longrightarrow> queueInv (pop s)"
proof (cases "queue s")
  case Nil
  assume "queueInv s"
  with Nil show ?thesis
    by (fastforce simp: queueInv_def pop_def Let_def sorted_wrt_append)
next
  case (Cons x xs)
  assume "queueInv s"
  with Cons show ?thesis
    by (fastforce simp: queueInv_def pop_def resolve_def Let_def itemsOf_append)
qed

lemma inv_popWithTimeout: "queueInv s \<Longrightarrow> queueInv (popWithTimeout ms s)"
proof (cases "queue s")
  case Nil
  assume "queueInv s"
  with Nil show ?thesis
    by (fastforce simp: queueInv_def popWithTimeout_def Let_def sorted_wrt_append)
next
  case (Cons x xs)
  assume "queueInv s"
  with Cons show ?thesis
    by (fastforce simp: queueInv_def popWithTimeout_def resolve_def Let_def itemsOf_append)
qed

lemma sorted_wrt_remove1: "sorted_wrt P xs \<Longrightarrow> sorted_wrt P (remove1 x xs)"
  by (induction xs) (auto dest: notin_set_remove1)


lemma resolvers_distinct:
  assumes "sorted_wrt (<) (map promiseOf rs)"
  shows "distinct (map promiseOf rs)"
  using assms strict_sorted_iff by blast

lemma remove1_other_promise:
  assumes "distinct (map promiseOf rs)" and "Wrapped p \<in> set rs" and "r \<in> set (remove1 (Wrapped p) rs)"
  shows "promiseOf r \<noteq> p"
proof -
  from assms(1) have d: "distinct rs" and i: "inj_on promiseOf (set rs)"
    by (simp_all add: distinct_map)
  from d assms(3) have "r \<in> set rs" and "r \<noteq> Wrapped p"
    by simp_all
  with i assms(2) have "promiseOf r \<noteq> promiseOf (Wrapped p)"
    by (metis inj_onD)
  then show ?thesis by simp
qed

lemma inv_timerFires: "queueInv s \<Longrightarrow> queueInv (timerFires p s)"
proof (cases "p \<in> fst ` set (timers s)")
  case False
  assume "queueInv s"
  with False show ?thesis by (simp add: timerFires_def)
next
  case True
  assume inv: "queueInv s"
  let ?s' = "timerFires p s"
  from inv True have w: "Wrapped p \<in> set (resolvers s)"
    by (simp add: queueInv_def)
  from inv have dm: "distinct (map promiseOf (resolvers s))"
    by (simp add: queueInv_def resolvers_distinct)
  then have d: "distinct (resolvers s)"
    by (simp add: distinct_map)
  from inv have "\<forall>r \<in> set (resolvers s). promiseOf r < nextPromise s \<and> promiseOf r \<notin> fst ` set (resolved s)"
    by (simp add: queueInv_def)
  with w have "promiseOf (Wrapped p) < nextPromise s \<and> promiseOf (Wrapped p) \<notin> fst ` set (resolved s)"
    by blast
  then have fresh: "p \<notin> fst ` set (resolved s)" and bound: "p < nextPromise s"
    by simp_all
  have q: "queue ?s' = queue s" and n: "nextPromise ?s' = nextPromise s"
    and pu: "pushedItems ?s' = pushedItems s"
    and rs: "resolvers ?s' = remove1 (Wrapped p) (resolvers s)"
    and rd: "resolved ?s' = resolved s @ [(p, Null)]"
    and tm: "timers ?s' = filter (\<lambda>t. fst t \<noteq> p) (timers s)"
    using True by (simp_all add: timerFires_def resolve_def clearTimeout_def)
  have 1: "queue ?s' = [] \<or> resolvers ?s' = []"
    using inv by (auto simp: q rs queueInv_def)
  have 2: "distinct (map fst (resolved ?s'))"
    using inv fresh by (simp add: rd queueInv_def)
  have 3: "sorted_wrt (<) (map promiseOf (resolvers ?s'))"
    using inv by (simp add: rs queueInv_def sorted_wrt_map sorted_wrt_remove1)
  have 4: "\<forall>r \<in> set (resolvers ?s'). promiseOf r < nextPromise ?s' \<and> promiseOf r \<notin> fst ` set (resolved ?s')"
  proof
    fix r assume r: "r \<in> set (resolvers ?s')"
    then have "r \<in> set (resolvers s)" using d by (simp add: rs)
    with inv have "promiseOf r < nextPromise s" and "promiseOf r \<notin> fst ` set (resolved s)"
      by (simp_all add: queueInv_def)
    moreover have "promiseOf r \<noteq> p"
      using remove1_other_promise [OF dm w] r by (simp add: rs)
    ultimately show "promiseOf r < nextPromise ?s' \<and> promiseOf r \<notin> fst ` set (resolved ?s')"
      by (simp add: n rd)
  qed
  have 5: "\<forall>q \<in> fst ` set (resolved ?s'). q < nextPromise ?s'"
    using inv bound by (auto simp: n rd queueInv_def)
  have 6: "\<forall>q. q \<in> fst ` set (timers ?s') \<longleftrightarrow> Wrapped q \<in> set (resolvers ?s')"
  proof
    fix q
    have "q \<in> fst ` set (timers ?s') \<longleftrightarrow> q \<noteq> p \<and> q \<in> fst ` set (timers s)"
      by (simp only: tm fst_filter_neq)
    also have "\<dots> \<longleftrightarrow> q \<noteq> p \<and> Wrapped q \<in> set (resolvers s)"
      using inv by (simp add: queueInv_def)
    also have "\<dots> \<longleftrightarrow> Wrapped q \<in> set (resolvers ?s')"
      using d by (auto simp: rs)
    finally show "q \<in> fst ` set (timers ?s') \<longleftrightarrow> Wrapped q \<in> set (resolvers ?s')" .
  qed
  have 7: "itemsOf (resolved ?s') @ queue ?s' = pushedItems ?s'"
    using inv by (simp add: rd q pu itemsOf_append queueInv_def)
  from 1 2 3 4 5 6 7 show ?thesis
    unfolding queueInv_def by blast
qed

lemma inv_step: "queueInv s \<Longrightarrow> queueInv (step e s)"
  by (cases e) (simp_all add: inv_push inv_pop inv_popWithTimeout inv_timerFires)

lemma inv_run: "queueInv s \<Longrightarrow> queueInv (run es s)"
  unfolding run_def by (induction es arbitrary: s) (simp_all add: inv_step)

lemma inv_reachable: "queueInv (run es emptyQueue)"
  by (simp add: inv_run inv_empty)


lemma resolved_grows: "\<exists>ys. resolved (step e s) = resolved s @ ys"
proof (cases e)
  case (Push x)
  show ?thesis
  proof (cases "resolvers s")
    case Nil
    with Push show ?thesis by (simp add: push_def)
  next
    case (Cons r rs)
    with Push show ?thesis
      by (cases r) (simp_all add: push_def resolve_def clearTimeout_def)
  qed
next
  case Pop
  then show ?thesis
    by (cases "queue s") (simp_all add: pop_def resolve_def Let_def)
next
  case (PopWithTimeout ms)
  then show ?thesis
    by (cases "queue s") (simp_all add: popWithTimeout_def resolve_def Let_def)
next
  case (TimerFires p)
  then show ?thesis
    by (simp add: timerFires_def resolve_def clearTimeout_def)
qed

lemma promiseValue_step:
  assumes "promiseValue s p = Some v"
  shows "promiseValue (step e s) p = Some v"
proof -
  obtain ys where "resolved (step e s) = resolved s @ ys"
    using resolved_grows by blast
  with assms show ?thesis
    by (simp add: promiseValue_def map_add_Some_iff)
qed

lemma promiseValue_run:
  "promiseValue s p = Some v \<Longrightarrow> promiseValue (run es s) p = Some v"
  unfolding run_def by (induction es arbitrary: s) (simp_all add: promiseValue_step)

lemma count_le_one:
  "distinct (map fst xs) \<Longrightarrow> length (filter (\<lambda>e. fst e = p) xs) \<le> 1"
  by (induction xs) (auto simp: image_iff filter_empty_conv)

lemma count_eq_one:
  "distinct (map fst xs) \<Longrightarrow> map_of xs p = Some v \<Longrightarrow> length (filter (\<lambda>e. fst e = p) xs) = 1"
  by (induction xs) (auto simp: image_iff filter_empty_conv split: if_splits)

lemma settleCount_le_one: "queueInv s \<Longrightarrow> settleCount s p \<le> 1"
  unfolding settleCount_def queueInv_def by (blast intro: count_le_one)

lemma settleCount_one: "queueInv s \<Longrightarrow> promiseValue s p = Some v \<Longrightarrow> settleCount s p = 1"
  unfolding settleCount_def promiseValue_def queueInv_def by (blast intro: count_eq_one)

lemma map_of_notin: "p \<notin> fst ` set xs \<Longrightarrow> map_of (xs @ [(p, v)]) p = Some v"
  by (simp add: map_add_Some_iff map_of_eq_None_iff)

lemma awaiting_popWithTimeout:
  assumes "queueInv s" and "queue s = []"
  shows "awaitingTimeout (nextPromise s) (popWithTimeout ms s)"
proof -
  from assms(1) have "nextPromise s \<notin> fst ` set (resolved s)"
    by (auto simp: queueInv_def)
  with assms(2) show ?thesis
    by (simp add: awaitingTimeout_def popWithTimeout_def Let_def)
qed

lemma awaiting_bound:
  assumes "queueInv s" and "awaitingTimeout p s"
  shows "p < nextPromise s"
proof -
  from assms(2) consider "p \<in> fst ` set (timers s)" | "promiseValue s p = Some Null"
    by (auto simp: awaitingTimeout_def)
  then show ?thesis
  proof cases
    case 1
    with assms(1) have "Wrapped p \<in> set (resolvers s)"
      by (simp add: queueInv_def)
    with assms(1) have "promiseOf (Wrapped p) < nextPromise s"
      unfolding queueInv_def by blast
    then show ?thesis by simp
  next
    case 2
    then have "p \<in> fst ` set (resolved s)"
      by (metis promiseValue_def map_of_eq_None_iff option.distinct(1))
    with assms(1) show ?thesis
      unfolding queueInv_def by blast
  qed
qed

lemma awaiting_timerFires_same:
  assumes "queueInv s" and "awaitingTimeout p s"
  shows "promiseValue (timerFires p s) p = Some Null
       \<and> p \<notin> fst ` set (timers (timerFires p s))
       \<and> Wrapped p \<notin> set (resolvers (timerFires p s))"
proof -
  have inv': "queueInv (timerFires p s)"
    using assms(1) by (rule inv_timerFires)
  have t: "p \<notin> fst ` set (timers (timerFires p s))"
    by (simp add: timerFires_def resolve_def clearTimeout_def fst_filter_neq del: set_filter)
  with inv' have r: "Wrapped p \<notin> set (resolvers (timerFires p s))"
    by (simp add: queueInv_def)
  have "promiseValue (timerFires p s) p = Some Null"
  proof (cases "p \<in> fst ` set (timers s)")
    case True
    with assms(2) have "p \<notin> fst ` set (resolved s)"
      by (simp add: awaitingTimeout_def)
    then have "map_of (resolved s @ [(p, Null)]) p = Some Null"
      by (rule map_of_notin)
    with True show ?thesis
      by (simp add: timerFires_def resolve_def clearTimeout_def promiseValue_def)
  next
    case False
    with assms(2) show ?thesis
      by (simp add: awaitingTimeout_def timerFires_def)
  qed
  with t r show ?thesis by simp
qed

lemma awaiting_step:
  assumes "queueInv s" and "awaitingTimeout p s" and "\<not> isPush e"
  shows "awaitingTimeout p (step e s)"
proof (cases e)
  case (Push x)
  with assms(3) show ?thesis by (simp add: isPush_def)
next
  case Pop
  have b: "p < nextPromise s" using assms(1,2) by (rule awaiting_bound)
  show ?thesis
  proof (cases "queue s")
    case Nil
    with Pop assms(2) show ?thesis
      by (simp add: awaitingTimeout_def pop_def Let_def promiseValue_def)
  next
    case (Cons x xs)
    with Pop assms(2) b show ?thesis
      by (auto simp: awaitingTimeout_def pop_def Let_def promiseValue_def resolve_def
          map_add_Some_iff)
  qed
next
  case (PopWithTimeout ms)
  have b: "p < nextPromise s" using assms(1,2) by (rule awaiting_bound)
  show ?thesis
  proof (cases "queue s")
    case Nil
    with PopWithTimeout assms(2) b show ?thesis
      by (auto simp: awaitingTimeout_def popWithTimeout_def Let_def promiseValue_def)
  next
    case (Cons x xs)
    with PopWithTimeout assms(2) b show ?thesis
      by (auto simp: awaitingTimeout_def popWithTimeout_def Let_def promiseValue_def resolve_def
          map_add_Some_iff)
  qed
next
  case (TimerFires q)
  show ?thesis
  proof (cases "q = p")
    case True
    with TimerFires awaiting_timerFires_same [OF assms(1,2)] show ?thesis
      by (simp add: awaitingTimeout_def)
  next
    case False
    have "promiseValue s p = Some Null \<Longrightarrow> promiseValue (timerFires q s) p = Some Null"
      using promiseValue_step [of s p Null "TimerFires q"] by simp
    moreover have "p \<in> fst ` set (timers (timerFires q s)) \<longleftrightarrow> p \<in> fst ` set (timers s)"
      using False by (simp add: timerFires_def resolve_def clearTimeout_def fst_filter_neq del: set_filter)
    moreover have "p \<in> fst ` set (resolved (timerFires q s)) \<longleftrightarrow> p \<in> fst ` set (resolved s)"
      using False by (auto simp: timerFires_def resolve_def clearTimeout_def)
    ultimately show ?thesis
      using assms(2) TimerFires by (auto simp: awaitingTimeout_def)
  qed
qed

lemma awaiting_run:
  "queueInv s \<Longrightarrow> awaitingTimeout p s \<Longrightarrow> \<forall>e \<in> set es. \<not> isPush e \<Longrightarrow>
     awaitingTimeout p (run es s) \<and> queueInv (run es s)"
  unfolding run_def
  by (induction es arbitrary: s) (simp_all add: awaiting_step inv_step)


text \<open>
  C2: for every timeout value, \<open>popWithTimeout\<close> on an empty queue that sees no push
  before its timer fires resolves to \<open>null\<close> and removes its own waiter and timer, so
  whatever happens later (any push included) the call stays resolved to \<open>null\<close> and is
  settled exactly once; when a push races the timeout, whichever runs first decides:
  the call resolves to the item or to \<open>null\<close>, settled exactly once, and in the second
  case the item stays in the buffer. No promise of a run is settled twice. (The delay
  itself is the runtime's; the model has the timer fire as an event.)
\<close>

theorem C2_popWithTimeout:
  fixes es es' es'' :: "'a event list"
  assumes reach: "s = run es emptyQueue"
    and empty: "queue s = []"
    and nopush: "\<forall>e \<in> set es'. \<not> isPush e"
  shows "promiseValue (timerFires (nextPromise s) (run es' (popWithTimeout ms s))) (nextPromise s) = Some Null
    \<and> Wrapped (nextPromise s) \<notin> set (resolvers (timerFires (nextPromise s) (run es' (popWithTimeout ms s))))
    \<and> nextPromise s \<notin> fst ` set (timers (timerFires (nextPromise s) (run es' (popWithTimeout ms s))))
    \<and> promiseValue (run es'' (timerFires (nextPromise s) (run es' (popWithTimeout ms s)))) (nextPromise s) = Some Null
    \<and> settleCount (run es'' (timerFires (nextPromise s) (run es' (popWithTimeout ms s)))) (nextPromise s) = 1
    \<and> (resolvers s = [] \<longrightarrow>
         promiseValue (run es'' (timerFires (nextPromise s) (push x (popWithTimeout ms s)))) (nextPromise s) = Some (Item x)
       \<and> settleCount (run es'' (timerFires (nextPromise s) (push x (popWithTimeout ms s)))) (nextPromise s) = 1
       \<and> promiseValue (run es'' (push x (timerFires (nextPromise s) (popWithTimeout ms s)))) (nextPromise s) = Some Null
       \<and> settleCount (run es'' (push x (timerFires (nextPromise s) (popWithTimeout ms s)))) (nextPromise s) = 1
       \<and> queue (push x (timerFires (nextPromise s) (popWithTimeout ms s))) = [x])
    \<and> (\<forall>q. settleCount (run es'' s) q \<le> 1)"
proof -
  let ?p = "nextPromise s"
  let ?s1 = "popWithTimeout ms s"
  let ?s2 = "timerFires ?p (run es' ?s1)"
  have inv: "queueInv s"
    using reach by (simp add: inv_reachable)
  then have inv1: "queueInv ?s1"
    by (rule inv_popWithTimeout)
  have aw1: "awaitingTimeout ?p ?s1"
    using inv empty by (rule awaiting_popWithTimeout)
  from awaiting_run [OF inv1 aw1 nopush]
  have aw: "awaitingTimeout ?p (run es' ?s1)" and invr: "queueInv (run es' ?s1)"
    by simp_all
  from awaiting_timerFires_same [OF invr aw]
  have a: "promiseValue ?s2 ?p = Some Null" and b: "?p \<notin> fst ` set (timers ?s2)"
    and c: "Wrapped ?p \<notin> set (resolvers ?s2)"
    by simp_all
  have inv2: "queueInv ?s2"
    using invr by (rule inv_timerFires)
  have d: "promiseValue (run es'' ?s2) ?p = Some Null"
    using a by (rule promiseValue_run)
  have e: "settleCount (run es'' ?s2) ?p = 1"
    using inv_run [OF inv2] d by (rule settleCount_one)
  have f: "\<forall>q. settleCount (run es'' s) q \<le> 1"
    using inv_run [OF inv] by (blast intro: settleCount_le_one)
  have g: "promiseValue (run es'' (timerFires ?p (push x ?s1))) ?p = Some (Item x)
       \<and> settleCount (run es'' (timerFires ?p (push x ?s1))) ?p = 1
       \<and> promiseValue (run es'' (push x (timerFires ?p ?s1))) ?p = Some Null
       \<and> settleCount (run es'' (push x (timerFires ?p ?s1))) ?p = 1
       \<and> queue (push x (timerFires ?p ?s1)) = [x]" if none: "resolvers s = []"
  proof -
    from inv have fresh: "?p \<notin> fst ` set (resolved s)"
      by (auto simp: queueInv_def)
    then have m: "map_of (resolved s @ [(?p, Item x)]) ?p = Some (Item x)"
      by (rule map_of_notin)
    have "resolved (push x ?s1) = resolved s @ [(?p, Item x)]"
      using empty none by (simp add: push_def popWithTimeout_def Let_def resolve_def clearTimeout_def)
    with m have "promiseValue (push x ?s1) ?p = Some (Item x)"
      by (simp only: promiseValue_def)
    then have "promiseValue (step (TimerFires ?p) (push x ?s1)) ?p = Some (Item x)"
      by (rule promiseValue_step)
    then have 1: "promiseValue (run es'' (timerFires ?p (push x ?s1))) ?p = Some (Item x)"
      by (simp add: promiseValue_run)
    have "queueInv (timerFires ?p (push x ?s1))"
      by (simp add: inv1 inv_push inv_timerFires)
    then have 2: "settleCount (run es'' (timerFires ?p (push x ?s1))) ?p = 1"
      using 1 by (simp add: inv_run settleCount_one)
    from awaiting_timerFires_same [OF inv1 aw1]
    have t: "promiseValue (timerFires ?p ?s1) ?p = Some Null" by simp
    then have "promiseValue (step (Push x) (timerFires ?p ?s1)) ?p = Some Null"
      by (rule promiseValue_step)
    then have 3: "promiseValue (run es'' (push x (timerFires ?p ?s1))) ?p = Some Null"
      by (simp add: promiseValue_run)
    have "queueInv (push x (timerFires ?p ?s1))"
      by (simp add: inv1 inv_push inv_timerFires)
    then have 4: "settleCount (run es'' (push x (timerFires ?p ?s1))) ?p = 1"
      using 3 by (simp add: inv_run settleCount_one)
    have 5: "queue (push x (timerFires ?p ?s1)) = [x]"
      using empty none
      by (simp add: push_def timerFires_def popWithTimeout_def Let_def resolve_def clearTimeout_def)
    from 1 2 3 4 5 show ?thesis by simp
  qed
  from a b c d e f g show ?thesis by blast
qed

theorem C2_popWithTimeout_witness:
  "promiseValue (timerFires 1 (run [Pop] (popWithTimeout 50 (run [Pop] emptyQueue)))) 1 = Some (Null :: nat outcome)
   \<and> promiseValue (run [Push (7::nat), Push 8]
        (timerFires 1 (run [Pop] (popWithTimeout 50 (run [Pop] emptyQueue))))) 1 = Some Null
   \<and> promiseValue (run [Push (7::nat), Push 8]
        (timerFires 1 (run [Pop] (popWithTimeout 50 (run [Pop] emptyQueue))))) 0 = Some (Item 7)
   \<and> promiseValue (run [] (timerFires 0 (push (7::nat) (popWithTimeout 50 (run [] emptyQueue))))) 0 = Some (Item 7)
   \<and> promiseValue (run [] (push (7::nat) (timerFires 0 (popWithTimeout 50 (run [] emptyQueue))))) 0 = Some Null"
proof -
  have s: "nextPromise (run [Pop] (emptyQueue :: nat AsyncQueue)) = 1"
    "queue (run [Pop] (emptyQueue :: nat AsyncQueue)) = []"
    "\<forall>e \<in> set [Pop :: nat event]. \<not> isPush e"
    by (simp_all add: run_def pop_def emptyQueue_def isPush_def)
  have s0: "nextPromise (run [] (emptyQueue :: nat AsyncQueue)) = 0"
    "queue (run [] (emptyQueue :: nat AsyncQueue)) = []"
    "resolvers (run [] (emptyQueue :: nat AsyncQueue)) = []"
    "\<forall>e \<in> set ([] :: nat event list). \<not> isPush e"
    by (simp_all add: run_def emptyQueue_def)
  have extra: "promiseValue (run [Push (7::nat), Push 8]
        (timerFires 1 (run [Pop] (popWithTimeout 50 (run [Pop] (emptyQueue :: nat AsyncQueue)))))) 0 = Some (Item 7)"
    by (simp add: run_def pop_def push_def popWithTimeout_def timerFires_def emptyQueue_def
        resolve_def clearTimeout_def promiseValue_def)
  show ?thesis
    using C2_popWithTimeout [of "run [Pop] (emptyQueue :: nat AsyncQueue)" "[Pop]" "[Pop]" 50 "[Push 7, Push 8]" 7,
        OF refl s(2) s(3)]
      C2_popWithTimeout [of "run [] (emptyQueue :: nat AsyncQueue)" "[]" "[]" 50 "[]" 7,
        OF refl s0(2) s0(4)]
      extra
    by (simp add: s s0)
qed

text \<open>
  C10: in every state a run of the queue reaches, the item buffer and the waiter list
  are never both non-empty; a push with no waiter appends the item to the buffer and
  settles nothing; a push with waiters leaves the buffer empty and settles exactly the
  first waiter, the oldest of all registered ones, with the item; the items delivered
  so far followed by the buffer are exactly the items pushed so far, in order, and no
  promise is settled twice: no pushed item is dropped or delivered twice.
\<close>

theorem C10_queue_invariant:
  fixes es :: "'a event list"
  assumes reach: "s = run es emptyQueue"
  shows "(queue s = [] \<or> resolvers s = [])
    \<and> (resolvers s = [] \<longrightarrow>
          queue (push x s) = queue s @ [x] \<and> resolved (push x s) = resolved s
        \<and> resolvers (push x s) = [])
    \<and> (\<forall>r rs. resolvers s = r # rs \<longrightarrow>
          queue s = [] \<and> queue (push x s) = []
        \<and> resolved (push x s) = resolved s @ [(promiseOf r, Item x)]
        \<and> resolvers (push x s) = rs
        \<and> (\<forall>r' \<in> set rs. promiseOf r < promiseOf r')
        \<and> promiseValue s (promiseOf r) = None
        \<and> promiseValue (push x s) (promiseOf r) = Some (Item x))
    \<and> itemsOf (resolved s) @ queue s = pushedItems s
    \<and> distinct (map fst (resolved s))"
proof -
  have inv: "queueInv s"
    using reach by (simp add: inv_reachable)
  have 1: "queue s = [] \<or> resolvers s = []"
    using inv by (simp add: queueInv_def)
  have 2: "queue (push x s) = queue s @ [x] \<and> resolved (push x s) = resolved s
        \<and> resolvers (push x s) = []" if "resolvers s = []"
    using that by (simp add: push_def)
  have 3: "queue s = [] \<and> queue (push x s) = []
        \<and> resolved (push x s) = resolved s @ [(promiseOf r, Item x)]
        \<and> resolvers (push x s) = rs
        \<and> (\<forall>r' \<in> set rs. promiseOf r < promiseOf r')
        \<and> promiseValue s (promiseOf r) = None
        \<and> promiseValue (push x s) (promiseOf r) = Some (Item x)" if rs: "resolvers s = r # rs" for r rs
  proof -
    from 1 rs have q: "queue s = []" by simp
    have upd: "queue (push x s) = [] \<and> resolved (push x s) = resolved s @ [(promiseOf r, Item x)]
        \<and> resolvers (push x s) = rs"
      using rs q by (cases r) (simp_all add: push_def resolve_def clearTimeout_def)
    from inv rs have old: "\<forall>r' \<in> set rs. promiseOf r < promiseOf r'"
      by (simp add: queueInv_def)
    from inv rs have fresh: "promiseOf r \<notin> fst ` set (resolved s)"
      by (simp add: queueInv_def)
    then have none: "promiseValue s (promiseOf r) = None"
      by (simp add: promiseValue_def map_of_eq_None_iff)
    from fresh have "map_of (resolved s @ [(promiseOf r, Item x)]) (promiseOf r) = Some (Item x)"
      by (rule map_of_notin)
    with upd have "promiseValue (push x s) (promiseOf r) = Some (Item x)"
      by (simp only: promiseValue_def)
    with q upd old none show ?thesis by simp
  qed
  have 4: "itemsOf (resolved s) @ queue s = pushedItems s"
    using inv by (simp add: queueInv_def)
  have 5: "distinct (map fst (resolved s))"
    using inv by (simp add: queueInv_def)
  from 1 2 3 4 5 show ?thesis by blast
qed

theorem C10_queue_invariant_witness:
  "resolvers (run [Pop, PopWithTimeout 50] (emptyQueue :: nat AsyncQueue)) = [Plain 0, Wrapped 1]
   \<and> queue (push 7 (run [Pop, PopWithTimeout 50] emptyQueue)) = ([] :: nat list)
   \<and> resolved (push 7 (run [Pop, PopWithTimeout 50] emptyQueue)) = [(0, Item (7::nat))]
   \<and> resolvers (push 7 (run [Pop, PopWithTimeout 50] (emptyQueue :: nat AsyncQueue))) = [Wrapped 1]
   \<and> resolvers (run [] (emptyQueue :: nat AsyncQueue)) = []
   \<and> queue (push 7 (run [] emptyQueue)) = [7::nat]"
proof -
  have r: "resolvers (run [Pop, PopWithTimeout 50] (emptyQueue :: nat AsyncQueue)) = [Plain 0, Wrapped 1]"
    "resolved (run [Pop, PopWithTimeout 50] (emptyQueue :: nat AsyncQueue)) = []"
    by (simp_all add: run_def pop_def popWithTimeout_def emptyQueue_def)
  have r0: "resolvers (run [] (emptyQueue :: nat AsyncQueue)) = []"
    "queue (run [] (emptyQueue :: nat AsyncQueue)) = []"
    by (simp_all add: run_def emptyQueue_def)
  show ?thesis
    using C10_queue_invariant [of "run [Pop, PopWithTimeout 50] (emptyQueue :: nat AsyncQueue)"
        "[Pop, PopWithTimeout 50]" 7, OF refl]
      C10_queue_invariant [of "run [] (emptyQueue :: nat AsyncQueue)" "[]" 7, OF refl]
    by (simp add: r r0)
qed

section \<open>Properties of loading and saving\<close>

lemma orStr_Some [simp]: "orStr (Some m) [] = m"
  by (simp add: orStr_def)

lemma orNum_Some_zero [simp]: "orNum (Some n) 0 = n"
  by (simp add: orNum_def)

lemma orBool_Some [simp]: "orBool (Some b) False = b"
  by (simp add: orBool_def)

lemma loadJob_saveJob: "loadJob (saveJob j) = Some j"
  by (simp add: loadJob_def saveJob_def)

lemma those_map_Some: "those (map (\<lambda>x. Some (f x)) xs) = Some (map f xs)"
  by (induction xs) simp_all

lemma those_load_save: "those (map loadJob (map saveJob js)) = Some js"
proof -
  have "map loadJob (map saveJob js) = map (\<lambda>j. Some (id j)) js"
    by (simp add: loadJob_saveJob)
  then show ?thesis
    by (simp only: those_map_Some) simp
qed

lemma allocJobs_nextRef:
  "nextRef (snd (allocJobs js s)) = nextRef s + length js"
  by (induction js arbitrary: s) (simp_all add: Let_def split_def)

lemma allocJobs_refs:
  "r \<in> set (fst (allocJobs js s)) \<Longrightarrow> nextRef s \<le> r"
proof (induction js arbitrary: s)
  case Nil
  then show ?case by simp
next
  case (Cons j js)
  then show ?case
    by (fastforce simp: Let_def split_def)
qed

lemma allocJobs_heap_old:
  "r < nextRef s \<Longrightarrow> heap (snd (allocJobs js s)) r = heap s r"
  by (induction js arbitrary: s) (simp_all add: Let_def split_def)

lemma allocJobs_frame:
  "store (snd (allocJobs js s)) = store s"
  "storeFile (snd (allocJobs js s)) = storeFile s"
  "heartbeatJobId (snd (allocJobs js s)) = heartbeatJobId s"
  by (induction js arbitrary: s) (simp_all add: Let_def split_def)

lemma allocJobs_heap:
  "map (heap (snd (allocJobs js s))) (fst (allocJobs js s)) = js"
proof (induction js arbitrary: s)
  case Nil
  then show ?case by simp
next
  case (Cons j js)
  let ?s1 = "s\<lparr>heap := (heap s)(nextRef s := j), nextRef := nextRef s + 1\<rparr>"
  have "heap (snd (allocJobs js ?s1)) (nextRef s) = heap ?s1 (nextRef s)"
    by (rule allocJobs_heap_old) simp
  then have "heap (snd (allocJobs js ?s1)) (nextRef s) = j"
    by simp
  with Cons.IH [of ?s1] show ?case
    by (simp add: Let_def split_def)
qed

text \<open>
  C5: persisting a store and reloading the written document in a scheduler that has no
  store in memory yields, in order, jobs equal in every field to the persisted ones,
  which are the jobs whose id is not the heartbeat job's: the document holds exactly
  those, so no job with the heartbeat id is in the file. (The version is kept too,
  unless it is \<open>0\<close>.)
\<close>

theorem C5_store_round_trip:
  assumes st: "store s = Some st"
    and fresh: "store s0 = None"
    and sameFile: "storeFile s0 = storeFile (saveStore s)"
    and loaded: "loadStore s0 = (st', s')"
  shows "map (heap s') (jobs st') = map (heap s) (filter (notHeartbeat s) (jobs st))
    \<and> storeFile (saveStore s) =
        Doc \<lparr>fVersion = Some (version st),
             fJobs = Some (map (\<lambda>r. saveJob (heap s r)) (filter (notHeartbeat s) (jobs st)))\<rparr>
    \<and> (\<forall>d. storeFile (saveStore s) = Doc d \<longrightarrow>
          (\<forall>j \<in> set (case fJobs d of None \<Rightarrow> [] | Some js \<Rightarrow> js). Some (fId j) \<noteq> heartbeatJobId s))
    \<and> (version st \<noteq> 0 \<longrightarrow> version st' = version st)
    \<and> store s' = Some st'"
proof -
  let ?keep = "filter (notHeartbeat s) (jobs st)"
  let ?doc = "\<lparr>fVersion = Some (version st),
             fJobs = Some (map (\<lambda>r. saveJob (heap s r)) ?keep)\<rparr>"
  have saved: "storeFile (saveStore s) = Doc ?doc"
    using st by (simp add: saveStore_def)
  have ids: "\<forall>j \<in> set (map (\<lambda>r. saveJob (heap s r)) ?keep). Some (fId j) \<noteq> heartbeatJobId s"
    by (auto simp: notHeartbeat_def saveJob_def)
  have parse: "those (map loadJob (map (\<lambda>r. saveJob (heap s r)) ?keep)) = Some (map (heap s) ?keep)"
    using those_load_save [of "map (heap s) ?keep"] by (simp add: comp_def)
  obtain rs s1 where alloc: "allocJobs (map (heap s) ?keep) s0 = (rs, s1)"
    by (cases "allocJobs (map (heap s) ?keep) s0")
  have heap1: "map (heap s1) rs = map (heap s) ?keep"
    using allocJobs_heap [of "map (heap s) ?keep" s0] by (simp add: alloc)
  have "loadStore s0 =
      (\<lparr>version = orNum (Some (version st)) 1, jobs = rs\<rparr>,
       s1\<lparr>store := Some \<lparr>version = orNum (Some (version st)) 1, jobs = rs\<rparr>\<rparr>)"
    using fresh sameFile saved parse alloc by (simp add: loadStore_def Let_def)
  with loaded have st': "st' = \<lparr>version = orNum (Some (version st)) 1, jobs = rs\<rparr>"
    and s': "s' = s1\<lparr>store := Some st'\<rparr>"
    by auto
  have 1: "map (heap s') (jobs st') = map (heap s) ?keep"
    using heap1 by (simp add: st' s')
  have 4: "version st \<noteq> 0 \<longrightarrow> version st' = version st"
    by (simp add: st' orNum_def)
  have 5: "store s' = Some st'"
    by (simp add: s')
  have 3: "\<forall>d. storeFile (saveStore s) = Doc d \<longrightarrow>
          (\<forall>j \<in> set (case fJobs d of None \<Rightarrow> [] | Some js \<Rightarrow> js). Some (fId j) \<noteq> heartbeatJobId s)"
    using saved ids by auto
  from 1 saved 3 4 5 show ?thesis
    by blast
qed

theorem C5_store_round_trip_witness:
  "map (heap (snd (loadStore (restarted (saveStore persistScheduler)))))
       (jobs (fst (loadStore (restarted (saveStore persistScheduler)))))
     = [sampleJob, sampleEvery]
   \<and> storeFile (saveStore persistScheduler) =
       Doc \<lparr>fVersion = Some 1, fJobs = Some [saveJob sampleJob, saveJob sampleEvery]\<rparr>"
proof -
  have hyp: "store persistScheduler = Some \<lparr>version = 1, jobs = [0, 1, 2]\<rparr>"
    "store (restarted (saveStore persistScheduler)) = None"
    "storeFile (restarted (saveStore persistScheduler)) = storeFile (saveStore persistScheduler)"
    by (simp_all add: persistScheduler_def sampleScheduler_def restarted_def saveStore_def)
  have keep: "notHeartbeat persistScheduler 0" "notHeartbeat persistScheduler (Suc 0)"
    "\<not> notHeartbeat persistScheduler 2"
    "heap persistScheduler 0 = sampleJob" "heap persistScheduler (Suc 0) = sampleEvery"
    by (simp_all add: persistScheduler_def sampleScheduler_def notHeartbeat_def sampleJob_def
        sampleEvery_def heartbeatJob_def)
  from C5_store_round_trip [OF hyp prod.collapse [symmetric]] show ?thesis
    by (simp add: keep)
qed

section \<open>Properties of the job listing\<close>

lemma ascendingLast_total: "ascendingLast a b \<or> ascendingLast b a"
  by (auto simp: ascendingLast_def split: option.splits)

lemma ascendingLast_trans: "ascendingLast a b \<Longrightarrow> ascendingLast b c \<Longrightarrow> ascendingLast a c"
  by (auto simp: ascendingLast_def split: option.splits)

lemma compareJobs_positive:
  "isPositive (compareJobs a b) \<longleftrightarrow> \<not> ascendingLast (effectiveNext a) (effectiveNext b)"
  by (auto simp: compareJobs_def orInfinity_def effectiveNext_def ascendingLast_def truthyNum_def
      split: option.splits)

lemma sorted_insertWith:
  assumes cmp: "\<And>a b. isPositive (cmp a b) \<longleftrightarrow> \<not> ascendingLast (key a) (key b)"
    and sorted: "sorted_wrt (\<lambda>a b. ascendingLast (key a) (key b)) ys"
  shows "sorted_wrt (\<lambda>a b. ascendingLast (key a) (key b)) (insertWith cmp x ys)"
  using sorted
proof (induction ys)
  case Nil
  then show ?case by simp
next
  case (Cons y ys)
  show ?case
  proof (cases "isPositive (cmp x y)")
    case True
    then have "ascendingLast (key y) (key x)"
      using cmp ascendingLast_total by blast
    with True Cons show ?thesis
      by (auto simp: set_insertWith)
  next
    case False
    then have xy: "ascendingLast (key x) (key y)"
      using cmp by blast
    have "ascendingLast (key x) (key z)" if "z \<in> set ys" for z
      using that xy Cons.prems ascendingLast_trans by fastforce
    with False xy Cons.prems show ?thesis
      by auto
  qed
qed

lemma sorted_sortWith:
  assumes "\<And>a b. isPositive (cmp a b) \<longleftrightarrow> \<not> ascendingLast (key a) (key b)"
  shows "sorted_wrt (\<lambda>a b. ascendingLast (key a) (key b)) (sortWith cmp xs)"
proof (induction xs)
  case Nil
  show ?case by (simp add: sortWith_def)
next
  case (Cons x xs)
  have "sortWith cmp (x # xs) = insertWith cmp x (sortWith cmp xs)"
    by (simp add: sortWith_def)
  with sorted_insertWith [of cmp key, OF assms Cons] show ?case
    by simp
qed

text \<open>
  C9, as stated, sorts by ascending \<open>nextRunAtMs\<close> with \<^verbatim>\<open>undefined\<close> last. The comparator
  reads \<^verbatim>\<open>nextRunAtMs || Infinity\<close>, and \<open>0\<close> is falsy: a job whose \<open>nextRunAtMs\<close> is \<open>0\<close>
  is listed after a job whose \<open>nextRunAtMs\<close> is \<open>1500\<close>.
\<close>

theorem C9_zero_next_counterexample:
  "fst (listJobs zeroNextScheduler) = [1, 0]
   \<and> nextRunAtMs (state (heap zeroNextScheduler 1)) = Some 1500
   \<and> nextRunAtMs (state (heap zeroNextScheduler 0)) = Some 0
   \<and> \<not> sortedByNext statedNext zeroNextScheduler (fst (listJobs zeroNextScheduler))"
  by (simp add: listJobs_def loadStore_def zeroNextScheduler_def sampleScheduler_def
      zeroNextJob_def sampleJob_def sampleEvery_def notHeartbeat_def sortWith_def
      compareJobs_def orInfinity_def ascendingLast_def sortedByNext_def statedNext_def)

text \<open>
  C9, amended: for every store state, \<open>listJobs()\<close> returns exactly the jobs whose id is
  not the heartbeat job's, sorted by ascending \<open>nextRunAtMs\<close> with the jobs whose
  \<open>nextRunAtMs\<close> is \<^verbatim>\<open>undefined\<close> or \<open>0\<close> sorted last; when no listed job has
  \<open>nextRunAtMs = 0\<close>, that is the order of the claim.
\<close>

theorem C9_listJobs_sorted:
  "snd (listJobs s) = snd (loadStore s)
   \<and> mset (fst (listJobs s)) =
       mset (filter (notHeartbeat (snd (loadStore s))) (jobs (fst (loadStore s))))
   \<and> sortedByNext effectiveNext (snd (listJobs s)) (fst (listJobs s))
   \<and> ((\<forall>r \<in> set (fst (listJobs s)). nextRunAtMs (state (heap (snd (listJobs s)) r)) \<noteq> Some 0)
        \<longrightarrow> sortedByNext statedNext (snd (listJobs s)) (fst (listJobs s)))"
proof -
  obtain st s1 where l: "loadStore s = (st, s1)"
    by (cases "loadStore s")
  let ?cmp = "\<lambda>a b. compareJobs (heap s1 a) (heap s1 b)"
  let ?rs = "sortWith ?cmp (filter (notHeartbeat s1) (jobs st))"
  have lj: "listJobs s = (?rs, s1)"
    by (simp add: listJobs_def l)
  have 1: "mset ?rs = mset (filter (notHeartbeat s1) (jobs st))"
    by (rule mset_sortWith)
  have 2: "sorted_wrt (\<lambda>a b. ascendingLast (effectiveNext (heap s1 a)) (effectiveNext (heap s1 b))) ?rs"
    by (rule sorted_sortWith [of ?cmp "\<lambda>r. effectiveNext (heap s1 r)"])
      (simp add: compareJobs_positive)
  have 3: "sorted_wrt (\<lambda>a b. ascendingLast (nextRunAtMs (state (heap s1 a)))
                                 (nextRunAtMs (state (heap s1 b)))) ?rs"
    if nz: "\<forall>r \<in> set ?rs. nextRunAtMs (state (heap s1 r)) \<noteq> Some 0"
  proof -
    have "effectiveNext (heap s1 r) = nextRunAtMs (state (heap s1 r))" if "r \<in> set ?rs" for r
      using nz that by (cases "nextRunAtMs (state (heap s1 r))") (auto simp: effectiveNext_def)
    then show ?thesis
      using 2 by (auto elim!: sorted_wrt_mono_rel [rotated])
  qed
  from 1 2 3 show ?thesis
    by (simp add: lj l sortedByNext_def statedNext_def)
qed

theorem C9_listJobs_sorted_witness:
  "fst (listJobs persistScheduler) = [0, 1]
   \<and> sortedByNext statedNext persistScheduler [0, 1]"
proof -
  have l: "listJobs persistScheduler = ([0, 1], persistScheduler)"
    by (simp add: listJobs_def loadStore_def persistScheduler_def sampleScheduler_def
        notHeartbeat_def sampleJob_def sampleEvery_def heartbeatJob_def sortWith_def
        compareJobs_def orInfinity_def)
  have nz: "\<forall>r \<in> set [0, 1::nat]. nextRunAtMs (state (heap persistScheduler r)) \<noteq> Some 0"
    by (simp add: persistScheduler_def sampleScheduler_def sampleJob_def sampleEvery_def)
  from C9_listJobs_sorted [of persistScheduler] nz show ?thesis
    unfolding l by simp
qed

section \<open>Properties of the subagent loop\<close>

lemma agentLoop_bound:
  "iteration st \<le> maxIterations \<Longrightarrow> length (chatLog st) = iteration st \<Longrightarrow>
     iteration (agentLoop chat tools st) \<le> maxIterations
   \<and> length (chatLog (agentLoop chat tools st)) = iteration (agentLoop chat tools st)"
proof (induction chat tools st rule: agentLoop.induct)
  case (1 chat tools st)
  show ?case
  proof (cases "iteration st < maxIterations")
    case False
    with "1.prems" show ?thesis by simp
  next
    case True
    show ?thesis
    proof (cases "chat (messages st)")
      case (Inl err)
      with True "1.prems" show ?thesis by (simp add: Let_def)
    next
      case (Inr response)
      show ?thesis
      proof (cases "hasToolCalls response")
        case False
        with True Inr "1.prems" show ?thesis by (simp add: Let_def)
      next
        case tc: True
        let ?next = "st\<lparr>iteration := iteration st + 1,
                        chatLog := chatLog st @ [Inr response],
                        messages := messages st @ [assistantMessage response]
                                    @ map (toolMessage tools) (toolCalls response)\<rparr>"
        have step: "agentLoop chat tools st = agentLoop chat tools ?next"
          using True Inr tc by (subst agentLoop.simps) (simp add: Let_def)
        have "iteration (agentLoop chat tools ?next) \<le> maxIterations
          \<and> length (chatLog (agentLoop chat tools ?next)) = iteration (agentLoop chat tools ?next)"
          using "1.IH" [of "st\<lparr>iteration := iteration st + 1\<rparr>" "chat (messages st)"
              "st\<lparr>iteration := iteration st + 1, chatLog := chatLog st @ [chat (messages st)]\<rparr>"
              response]
            True Inr tc "1.prems"
          by simp
        with step show ?thesis by simp
      qed
    qed
  qed
qed


lemma agentLoop_only_tools:
  "\<forall>a \<in> set (chatLog (agentLoop chat tools st)). usesTools a \<Longrightarrow>
     iteration st \<le> maxIterations \<Longrightarrow>
     failure (agentLoop chat tools st) = failure st
   \<and> finalResult (agentLoop chat tools st) = finalResult st
   \<and> iteration (agentLoop chat tools st) = maxIterations"
proof (induction chat tools st rule: agentLoop.induct)
  case (1 chat tools st)
  show ?case
  proof (cases "iteration st < maxIterations")
    case False
    with "1.prems" show ?thesis by simp
  next
    case True
    show ?thesis
    proof (cases "chat (messages st)")
      case (Inl err)
      then have "agentLoop chat tools st =
          st\<lparr>iteration := iteration st + 1, chatLog := chatLog st @ [Inl err], failure := Some err\<rparr>"
        using True by (subst agentLoop.simps) (simp add: Let_def)
      with "1.prems"(1) show ?thesis by (simp add: usesTools_def)
    next
      case (Inr response)
      show ?thesis
      proof (cases "hasToolCalls response")
        case False
        then have "agentLoop chat tools st =
            st\<lparr>iteration := iteration st + 1, chatLog := chatLog st @ [Inr response],
               finalResult := content response\<rparr>"
          using True Inr by (subst agentLoop.simps) (simp add: Let_def)
        with "1.prems"(1) False show ?thesis by (simp add: usesTools_def)
      next
        case tc: True
        let ?next = "st\<lparr>iteration := iteration st + 1,
                        chatLog := chatLog st @ [Inr response],
                        messages := messages st @ [assistantMessage response]
                                    @ map (toolMessage tools) (toolCalls response)\<rparr>"
        have step: "agentLoop chat tools st = agentLoop chat tools ?next"
          using True Inr tc by (subst agentLoop.simps) (simp add: Let_def)
        have "failure (agentLoop chat tools ?next) = failure ?next
          \<and> finalResult (agentLoop chat tools ?next) = finalResult ?next
          \<and> iteration (agentLoop chat tools ?next) = maxIterations"
          using "1.IH" [of "st\<lparr>iteration := iteration st + 1\<rparr>" "chat (messages st)"
              "st\<lparr>iteration := iteration st + 1, chatLog := chatLog st @ [chat (messages st)]\<rparr>"
              response]
            True Inr tc "1.prems" step
          by simp
        with step show ?thesis by simp
      qed
    qed
  qed
qed

text \<open>
  C7: every subagent run asks the model at most 15 times (one call per iteration of
  the loop); if the ceiling is reached without an answer free of tool calls, that is,
  if every answer of the run asks for tools, the run makes exactly 15 iterations, has
  no final result and no failure, and publishes on the bus one announcement built
  with status \<open>ok\<close> (its text says "completed successfully") and the placeholder
  "Task completed but no final response was generated." as result.
\<close>

theorem C7_subagent_ceiling:
  "length (chatLog (agentLoop chat tools (initialLoop (buildSubagentPrompt workspace task) task))) \<le> 15
   \<and> iteration (agentLoop chat tools (initialLoop (buildSubagentPrompt workspace task) task)) \<le> 15
   \<and> ((\<forall>a \<in> set (chatLog (agentLoop chat tools (initialLoop (buildSubagentPrompt workspace task) task))). usesTools a)
        \<longrightarrow> length (chatLog (agentLoop chat tools (initialLoop (buildSubagentPrompt workspace task) task))) = 15
          \<and> finalResult (agentLoop chat tools (initialLoop (buildSubagentPrompt workspace task) task)) = None
          \<and> failure (agentLoop chat tools (initialLoop (buildSubagentPrompt workspace task) task)) = None
          \<and> runSubagent chat tools workspace now taskId task label origin inbound =
              announceResult now taskId label task
                ''Task completed but no final response was generated.'' origin AnnounceOk inbound
          \<and> pushedItems (runSubagent chat tools workspace now taskId task label origin inbound) =
              pushedItems inbound @
                [\<lparr>msgChannel = ''system'', senderId = ''subagent'',
                  chatId = originChannel origin @ '':'' @ originChatId origin,
                  msgContent = announceContent label task
                    ''Task completed but no final response was generated.'' AnnounceOk,
                  timestamp = now, media = [], metadata = []\<rparr>]
          \<and> announceContent label task
                ''Task completed but no final response was generated.'' AnnounceOk
              = ''[Subagent '' @ [CHR 0x27] @ label @ [CHR 0x27] @ '' completed successfully]''
                @ ''\<newline>\<newline>Task: '' @ task
                @ ''\<newline>\<newline>Result:\<newline>Task completed but no final response was generated.''
                @ ''\<newline>\<newline>Summarize this naturally for the user. Keep it brief (1-2 sentences). ''
                @ ''Do not mention technical details like '' @ [CHR 0x22] @ ''subagent'' @ [CHR 0x22]
                @ '' or task IDs.'')"
proof -
  let ?st = "agentLoop chat tools (initialLoop (buildSubagentPrompt workspace task) task)"
  have init: "iteration (initialLoop (buildSubagentPrompt workspace task) task) \<le> maxIterations"
    "length (chatLog (initialLoop (buildSubagentPrompt workspace task) task))
      = iteration (initialLoop (buildSubagentPrompt workspace task) task)"
    by (simp_all add: initialLoop_def)
  from agentLoop_bound [OF init]
  have b: "iteration ?st \<le> 15" "length (chatLog ?st) = iteration ?st"
    by (simp_all add: maxIterations_def)
  have c: "length (chatLog ?st) = 15 \<and> finalResult ?st = None \<and> failure ?st = None"
    if "\<forall>a \<in> set (chatLog ?st). usesTools a"
    using agentLoop_only_tools [OF that init(1)] b(2)
    by (simp add: initialLoop_def maxIterations_def)
  have d: "runSubagent chat tools workspace now taskId task label origin inbound =
      announceResult now taskId label task
        ''Task completed but no final response was generated.'' origin AnnounceOk inbound"
    if "\<forall>a \<in> set (chatLog ?st). usesTools a"
    using c [OF that] by (simp add: runSubagent_def placeholderResult_def)
  have e: "pushedItems (announceResult now taskId label task result origin status inbound) =
      pushedItems inbound @
        [\<lparr>msgChannel = ''system'', senderId = ''subagent'',
          chatId = originChannel origin @ '':'' @ originChatId origin,
          msgContent = announceContent label task result status,
          timestamp = now, media = [], metadata = []\<rparr>]" for result status
  proof (cases "resolvers inbound")
    case Nil
    then show ?thesis
      by (simp add: announceResult_def createInboundMessage_def push_def)
  next
    case (Cons r rs)
    then show ?thesis
      by (cases r) (simp_all add: announceResult_def createInboundMessage_def push_def
          resolve_def clearTimeout_def)
  qed
  have f: "announceContent label task
                ''Task completed but no final response was generated.'' AnnounceOk
              = ''[Subagent '' @ [CHR 0x27] @ label @ [CHR 0x27] @ '' completed successfully]''
                @ ''\<newline>\<newline>Task: '' @ task
                @ ''\<newline>\<newline>Result:\<newline>Task completed but no final response was generated.''
                @ ''\<newline>\<newline>Summarize this naturally for the user. Keep it brief (1-2 sentences). ''
                @ ''Do not mention technical details like '' @ [CHR 0x22] @ ''subagent'' @ [CHR 0x22]
                @ '' or task IDs.''"
    by (simp add: announceContent_def)
  from b c d e f show ?thesis
    by presburger
qed

theorem C7_subagent_ceiling_witness:
  "length (chatLog (agentLoop neverDone Map.empty
       (initialLoop (buildSubagentPrompt ''/home/user/ws'' ''count files'') ''count files''))) = 15
   \<and> pushedItems (runSubagent neverDone Map.empty ''/home/user/ws'' 1700000000000
         ''1a2b3c4d'' ''count files'' ''count'' cliOrigin emptyQueue)
     = [\<lparr>msgChannel = ''system'', senderId = ''subagent'', chatId = ''cli:direct'',
         msgContent = announceContent ''count'' ''count files''
           ''Task completed but no final response was generated.'' AnnounceOk,
         timestamp = 1700000000000, media = [], metadata = []\<rparr>]"
proof -
  have log: "chatLog (agentLoop neverDone Map.empty (initialLoop (buildSubagentPrompt ''/home/user/ws'' ''count files'') ''count files''))
     = replicate 15 (neverDone [])"
    by (simp add: initialLoop_def maxIterations_def neverDone_def hasToolCalls_def
        Let_def eval_nat_numeral)
  have hyp: "\<forall>a \<in> set (chatLog (agentLoop neverDone Map.empty
       (initialLoop (buildSubagentPrompt ''/home/user/ws'' ''count files'') ''count files''))). usesTools a"
    unfolding log by (simp add: usesTools_def neverDone_def hasToolCalls_def)
  from C7_subagent_ceiling [of neverDone Map.empty "''/home/user/ws''" "''count files''"
      1700000000000 "''1a2b3c4d''" "''count''" cliOrigin emptyQueue] hyp
  have "length (chatLog (agentLoop neverDone Map.empty
       (initialLoop (buildSubagentPrompt ''/home/user/ws'' ''count files'') ''count files''))) = 15"
    and "pushedItems (runSubagent neverDone Map.empty ''/home/user/ws'' 1700000000000
         ''1a2b3c4d'' ''count files'' ''count'' cliOrigin emptyQueue)
     = pushedItems (emptyQueue :: InboundMessage AsyncQueue) @
       [\<lparr>msgChannel = ''system'', senderId = ''subagent'',
         chatId = originChannel cliOrigin @ '':'' @ originChatId cliOrigin,
         msgContent = announceContent ''count'' ''count files''
           ''Task completed but no final response was generated.'' AnnounceOk,
         timestamp = 1700000000000, media = [], metadata = []\<rparr>]"
    by blast+
  then show ?thesis
    by (simp add: cliOrigin_def emptyQueue_def del: agentLoop.simps)
qed

end
